theory Spec2Isabelle
  imports Complex_Main "HOL-Library.Sublist"
begin

section \<open>Strings\<close>

text \<open>
  A JavaScript string is a sequence of UTF-16 code units; a code unit is an integer
  here (from 0 to 65535), and \<open>length\<close> counts code units. \<open>utf16\<close> gives the string of
  a literal made of ASCII characters.
\<close>

type_synonym jsstring = "int list"

definition utf16 :: "string \<Rightarrow> jsstring" where
  "utf16 s = map of_char s"

text \<open>
  The characters that \<open>\s\<close> matches and that \<open>trim\<close> removes: the white space and the
  line terminators of ECMAScript.
\<close>

definition whitespace :: "int \<Rightarrow> bool" where
  "whitespace c =
     (c = 0x09 \<or> c = 0x0A \<or> c = 0x0B \<or> c = 0x0C \<or> c = 0x0D \<or> c = 0x20 \<or> c = 0xA0
      \<or> c = 0x1680 \<or> (0x2000 \<le> c \<and> c \<le> 0x200A) \<or> c = 0x2028 \<or> c = 0x2029
      \<or> c = 0x202F \<or> c = 0x205F \<or> c = 0x3000 \<or> c = 0xFEFF)"

definition sentenceEnd :: "int \<Rightarrow> bool" where
  \<comment> \<open>the character class \<open>[.!?]\<close>\<close>
  "sentenceEnd c = (c = 0x2E \<or> c = 0x21 \<or> c = 0x3F)"

text \<open>
  \<open>s.split(/[cls]+/)\<close>: the pieces of \<open>s\<close> between maximal runs of characters of the
  class. A run at the start or at the end leaves an empty piece there, and the empty
  string splits into one empty piece.
\<close>

fun split_plus :: "('a \<Rightarrow> bool) \<Rightarrow> 'a list \<Rightarrow> 'a list list" where
  "split_plus cls [] = [[]]"
| "split_plus cls (c # cs) =
     (if cls c then
        (case cs of
           [] \<Rightarrow> [[], []]
         | d # ds \<Rightarrow> if cls d then split_plus cls cs else [] # split_plus cls cs)
      else
        (case split_plus cls cs of
           [] \<Rightarrow> [[c]]
         | p # ps \<Rightarrow> (c # p) # ps))"

definition trim :: "jsstring \<Rightarrow> jsstring" where
  "trim s = rev (dropWhile whitespace (rev (dropWhile whitespace s)))"

fun join :: "'a list \<Rightarrow> 'a list list \<Rightarrow> 'a list" where
  "join sep [] = []"
| "join sep [x] = x"
| "join sep (x # y # ys) = x @ sep @ join sep (y # ys)"

text \<open>\<open>s.includes(t)\<close>: \<open>t\<close> occurs in \<open>s\<close> as a contiguous substring.\<close>

fun str_includes :: "'a list \<Rightarrow> 'a list \<Rightarrow> bool" where
  "str_includes [] t = (t = [])"
| "str_includes (c # cs) t = (prefix t (c # cs) \<or> str_includes cs t)"

text \<open>
  The digits that a template literal prints for a non-negative integer (below
  \<open>10^21\<close>, as page numbers and retry counts are).
\<close>

fun decimal :: "nat \<Rightarrow> jsstring" where
  "decimal n =
     (if n < 10 then [0x30 + int n] else decimal (n div 10) @ [0x30 + int (n mod 10)])"

section \<open>Client-side sentence limit\<close>

text \<open>
  The safety net of the voice session's \<open>onresult\<close> handler:
  \<^verbatim>\<open>
  const allSentences = answer.split(/[.!?]+/).filter(s => s.trim().length > 0);
  const limitedSentences = allSentences.slice(0, 3);
  const limitedAnswer = limitedSentences.join('. ') + (limitedSentences.length > 0 ? '.' : '');
  \<close>
\<close>

definition allSentences :: "jsstring \<Rightarrow> jsstring list" where
  "allSentences answer = filter (\<lambda>s. length (trim s) > 0) (split_plus sentenceEnd answer)"

definition limitedSentences :: "jsstring \<Rightarrow> jsstring list" where
  "limitedSentences answer = take 3 (allSentences answer)"

definition limitedAnswer :: "jsstring \<Rightarrow> jsstring" where
  "limitedAnswer answer =
     join (utf16 ''. '') (limitedSentences answer)
       @ (if length (limitedSentences answer) > 0 then utf16 ''.'' else [])"

section \<open>Retrieval: \<open>scoreChunk\<close> and \<open>retrieveChunks\<close>\<close>

text \<open>
  A chunk of the rulebook file, with the fields of the data model: strings, and a page
  number that is an integer from 1 on.
\<close>

record chunk =
  id :: jsstring
  gameId :: jsstring
  page :: nat
  "section" :: jsstring
  "text" :: jsstring

text \<open>
  \<open>scoreChunk\<close> runs two \<open>forEach\<close> loops over the question words, both adding to
  the local variable \<open>score\<close>; each loop is a fold with the score as accumulator.
  \<open>String.prototype.toLowerCase\<close> follows the case mappings of Unicode, a table that
  is not part of the program: it is the parameter \<open>toLowerCase\<close>, and what is proved
  of the score holds whatever that function is.
\<close>

definition scoreChunk :: "(jsstring \<Rightarrow> jsstring) \<Rightarrow> jsstring \<Rightarrow> chunk \<Rightarrow> int" where
  "scoreChunk toLowerCase question chunk =
     (let questionWords = split_plus whitespace (toLowerCase question);
          chunkWords = split_plus whitespace (toLowerCase (text chunk));
          score = fold (\<lambda>qWord score.
                     if length qWord > 2 then
                       (let matches = filter (\<lambda>cWord. str_includes cWord qWord
                                                       \<or> str_includes qWord cWord) chunkWords
                        in score + int (length matches))
                     else score) questionWords 0;
          sectionLower = toLowerCase (section chunk)
      in fold (\<lambda>qWord score. if str_includes sectionLower qWord then score + 2 else score)
           questionWords score)"

text \<open>
  \<open>Array.prototype.sort\<close> with a comparator is a stable sort: \<open>a\<close> stays before \<open>b\<close>
  unless the comparator is positive on \<open>(a, b)\<close>. Insertion from the right, each element
  placed before the first one it need not follow, computes that order.
\<close>

fun insert_cmp :: "('a \<Rightarrow> 'a \<Rightarrow> int) \<Rightarrow> 'a \<Rightarrow> 'a list \<Rightarrow> 'a list" where
  "insert_cmp cmp a [] = [a]"
| "insert_cmp cmp a (b # bs) = (if cmp a b \<le> 0 then a # b # bs else b # insert_cmp cmp a bs)"

definition sort_cmp :: "('a \<Rightarrow> 'a \<Rightarrow> int) \<Rightarrow> 'a list \<Rightarrow> 'a list" where
  "sort_cmp cmp xs = foldr (insert_cmp cmp) xs []"

record scored =
  chunk :: chunk
  score :: int

text \<open>
  \<open>topN\<close> is a count (the handler passes 5), so \<open>slice(0, topN)\<close> takes the first
  \<open>topN\<close> items.
\<close>

definition scoredChunks ::
  "(jsstring \<Rightarrow> jsstring) \<Rightarrow> jsstring \<Rightarrow> chunk list \<Rightarrow> scored list" where
  \<comment> \<open>the local \<open>scored\<close> of \<open>retrieveChunks\<close>: every chunk it is given, with its score\<close>
  "scoredChunks toLowerCase question chunks =
     map (\<lambda>c. \<lparr>chunk = c, score = scoreChunk toLowerCase question c\<rparr>) chunks"

definition retrieveChunks ::
  "(jsstring \<Rightarrow> jsstring) \<Rightarrow> jsstring \<Rightarrow> chunk list \<Rightarrow> nat \<Rightarrow> chunk list" where
  "retrieveChunks toLowerCase question chunks topN =
     (let scored = scoredChunks toLowerCase question chunks
      in map chunk
           (take topN
              (sort_cmp (\<lambda>a b. score b - score a)
                 (filter (\<lambda>item. score item > 0) scored))))"

text \<open>
  The score as the specification words it. The tokens of a text are its white-space
  separated words, none of them empty. The score is the sum, over the question tokens
  longer than two characters, of the number of chunk tokens that contain the question
  token or are contained in it, plus 2 for each question token that occurs in the
  section label.
\<close>

definition tokens :: "jsstring \<Rightarrow> jsstring list" where
  "tokens s = filter (\<lambda>w. w \<noteq> []) (split_plus whitespace s)"

definition spec_score :: "(jsstring \<Rightarrow> jsstring) \<Rightarrow> jsstring \<Rightarrow> chunk \<Rightarrow> int" where
  "spec_score toLowerCase question c =
     (let questionTokens = tokens (toLowerCase question);
          chunkTokens = tokens (toLowerCase (text c))
      in (\<Sum>q \<leftarrow> filter (\<lambda>q. length q > 2) questionTokens.
            int (length (filter (\<lambda>t. str_includes t q \<or> str_includes q t) chunkTokens)))
         + 2 * int (length (filter (\<lambda>q. str_includes (toLowerCase (section c)) q)
                              questionTokens)))"

section \<open>The answer endpoint\<close>

subsection \<open>JSON values\<close>

text \<open>
  A parsed JSON value; \<open>undefined\<close> is \<open>None\<close> of \<open>json option\<close>. A number is given
  by the string that \<open>Number.prototype.toString\<close> prints for it (\<open>0\<close> for zero): the
  handler only tests a number for truth and prints it. An object lists its members in
  source order; \<open>JSON.parse\<close> keeps the last of two members with one key.
\<close>

datatype json =
    JNull
  | JBool bool
  | JNum jsstring
  | JStr jsstring
  | JArr "json list"
  | JObj "(jsstring \<times> json) list"

fun truthy :: "json option \<Rightarrow> bool" where
  "truthy None = False"
| "truthy (Some JNull) = False"
| "truthy (Some (JBool b)) = b"
| "truthy (Some (JNum n)) = (n \<noteq> utf16 ''0'')"
| "truthy (Some (JStr s)) = (s \<noteq> [])"
| "truthy (Some (JArr xs)) = True"
| "truthy (Some (JObj kvs)) = True"

text \<open>
  \<open>v.name\<close> on a value that is neither \<open>null\<close> nor \<open>undefined\<close>, for the member names
  the handler reads (\<open>gameId\<close>, \<open>question\<close>, \<open>choices\<close>, \<open>message\<close>, \<open>content\<close>): only an
  object can have them.
\<close>

fun get_prop :: "json \<Rightarrow> jsstring \<Rightarrow> json option" where
  "get_prop (JObj kvs) name = map_of (rev kvs) name"
| "get_prop v name = None"

text \<open>\<open>v[0]\<close> on a value that is neither \<open>null\<close> nor \<open>undefined\<close>.\<close>

fun get_index0 :: "json \<Rightarrow> json option" where
  "get_index0 (JArr xs) = (case xs of [] \<Rightarrow> None | x # _ \<Rightarrow> Some x)"
| "get_index0 (JStr s) = (case s of [] \<Rightarrow> None | c # _ \<Rightarrow> Some (JStr [c]))"
| "get_index0 (JObj kvs) = map_of (rev kvs) (utf16 ''0'')"
| "get_index0 v = None"

text \<open>Optional chaining \<open>v?.f\<close>: \<open>undefined\<close> when \<open>v\<close> is \<open>null\<close> or \<open>undefined\<close>.\<close>

fun chain :: "json option \<Rightarrow> (json \<Rightarrow> json option) \<Rightarrow> json option" where
  "chain None f = None"
| "chain (Some JNull) f = None"
| "chain (Some v) f = f v"

text \<open>
  \<open>`${v}`\<close>: the string a value turns into inside a template literal, or \<open>None\<close> when
  the conversion throws a \<open>TypeError\<close>. An object is converted by its \<open>toString\<close>: a
  parsed object that has a member of that name has no callable one and the conversion
  throws, any other prints as \<open>[object Object]\<close>. An array joins the strings of its
  elements with commas, \<open>null\<close> giving the empty string.
\<close>

fun ToString :: "json \<Rightarrow> jsstring option" where
  "ToString JNull = Some (utf16 ''null'')"
| "ToString (JBool b) = Some (if b then utf16 ''true'' else utf16 ''false'')"
| "ToString (JNum n) = Some n"
| "ToString (JStr s) = Some s"
| "ToString (JArr xs) =
     map_option (join (utf16 '',''))
       (those (map (\<lambda>x. if x = JNull then Some [] else ToString x) xs))"
| "ToString (JObj kvs) =
     (if utf16 ''toString'' \<in> set (map fst kvs) then None
      else Some (utf16 ''[object Object]''))"

subsection \<open>Request, response, and the handler's surroundings\<close>

record request =
  "method" :: jsstring
  body :: "json option"

record response =
  status :: nat
  answer :: jsstring
  sources :: "(nat \<times> jsstring) list"

text \<open>The request sent to the model service.\<close>

record completion_request =
  authorization :: jsstring
  model :: jsstring
  systemPrompt :: jsstring
  userPrompt :: jsstring
  max_tokens :: nat
  temperature :: real

text \<open>
  What the call to the model service comes to: \<open>fetch\<close> rejects, the status is not a
  success, the body of a successful response does not parse as JSON, or it parses.
\<close>

datatype completion =
    FetchRejected
  | NotOk nat
  | NotJson
  | Parsed json

text \<open>
  The handler's surroundings: the chunk file (\<open>None\<close> when reading, parsing or
  filtering it throws), the environment variable \<open>OPENAI_API_KEY\<close>, the model
  service, and the runtime's \<open>String.prototype.toLowerCase\<close>.
\<close>

record env =
  toLowerCase :: "jsstring \<Rightarrow> jsstring"
  catanRulebookChunks :: "chunk list option"
  OPENAI_API_KEY :: "jsstring option"
  openai :: "completion_request \<Rightarrow> completion"

datatype exn = TypeError | SyntaxError

definition reply :: "nat \<Rightarrow> jsstring \<Rightarrow> (nat \<times> jsstring) list \<Rightarrow> response" where
  "reply code a srcs = \<lparr>status = code, answer = a, sources = srcs\<rparr>"

definition newline :: jsstring where
  "newline = [0x0A]"

definition systemPrompt_text :: jsstring where
  "systemPrompt_text =
     (utf16 ''You are a board game rules expert for Catan. You may only answer from the rulebook excerpts provided in the context. If the answer is not clearly in the context, say you are not sure and suggest checking the physical rulebook. Keep your answer under 3 short sentences. Do not invent new rules.'')"

definition build_context :: "chunk list \<Rightarrow> jsstring" where
  "build_context relevantChunks =
     join (newline @ newline @ (utf16 ''---'') @ newline @ newline)
       (map (\<lambda>c. (utf16 ''[Page '') @ decimal (page c) @ (utf16 '', Section: '') @ section c @ (utf16 '']'')
                  @ newline @ text c) relevantChunks)"

definition build_request :: "jsstring \<Rightarrow> jsstring \<Rightarrow> chunk list \<Rightarrow> completion_request" where
  "build_request apiKey question relevantChunks =
     \<lparr>authorization = (utf16 ''Bearer '') @ apiKey,
      model = (utf16 ''gpt-4o-mini''),
      systemPrompt = systemPrompt_text,
      userPrompt = (utf16 ''Question: '') @ question @ newline @ newline
                     @ (utf16 ''Context from rulebook:'') @ newline @ build_context relevantChunks,
      max_tokens = 150,
      temperature = 0.3\<rparr>"

text \<open>
  \<^verbatim>\<open>openaiResponse.choices?.[0]?.message?.content?.trim() || "I couldn't generate ..."\<close>
  Reading \<open>choices\<close> of \<open>null\<close> throws, and so does calling \<open>trim\<close> on a content that is
  there and is not a string.
\<close>

definition answer_of :: "json \<Rightarrow> exn + jsstring" where
  "answer_of openaiResponse =
     (if openaiResponse = JNull then Inl TypeError
      else
        (case chain (chain (chain (get_prop openaiResponse (utf16 ''choices'')) get_index0)
                       (\<lambda>c. get_prop c (utf16 ''message''))) (\<lambda>m. get_prop m (utf16 ''content'')) of
           None \<Rightarrow> Inr (utf16 ''I couldn't generate an answer. Please try again.'')
         | Some JNull \<Rightarrow> Inr (utf16 ''I couldn't generate an answer. Please try again.'')
         | Some (JStr s) \<Rightarrow>
             Inr (if trim s = [] then (utf16 ''I couldn't generate an answer. Please try again.'')
                  else trim s)
         | Some v \<Rightarrow> Inl TypeError))"

subsection \<open>The handler\<close>

text \<open>
  \<open>allChunks.filter(chunk => chunk.gameId === gameId)\<close>: a chunk's \<open>gameId\<close> is a
  string, and strict equality holds only with the same string.
\<close>

text \<open>\<open>`${gameId}`\<close> for the \<open>gameId\<close> read from the body.\<close>

definition template :: "json option \<Rightarrow> jsstring option" where
  "template v = (case v of None \<Rightarrow> Some (utf16 ''undefined'') | Some g \<Rightarrow> ToString g)"

definition chunksFor :: "json option \<Rightarrow> chunk list \<Rightarrow> chunk list" where
  "chunksFor g allChunks = filter (\<lambda>c. Some (JStr (gameId c)) = g) allChunks"

text \<open>
  The last part of the outer \<open>try\<close>, from the check of the API key to the final
  response: what it returns or throws, and the requests it made to the model service.
\<close>

definition answer_from_model ::
  "env \<Rightarrow> jsstring \<Rightarrow> chunk list \<Rightarrow> (exn + response) \<times> completion_request list" where
  "answer_from_model e question relevantChunks =
     (case OPENAI_API_KEY e of
        None \<Rightarrow>
          (Inr (reply 200
             (utf16 ''The rules engine is currently unavailable. Please check your connection or try again later.'')
             []), [])
      | Some apiKey \<Rightarrow>
          if apiKey = [] then
            (Inr (reply 200
               (utf16 ''The rules engine is currently unavailable. Please check your connection or try again later.'')
               []), [])
          else
            (let r = build_request apiKey question relevantChunks
             in case openai e r of
                  Parsed openaiResponse \<Rightarrow>
                    (case answer_of openaiResponse of
                       Inl x \<Rightarrow> (Inl x, [r])
                     | Inr a \<Rightarrow>
                         (Inr (reply 200 a (map (\<lambda>c. (page c, section c)) relevantChunks)), [r]))
                | failure \<Rightarrow>
                    (Inr (reply 200
                       (utf16 ''I had trouble reaching the rules engine. Please check your connection or try again.'')
                       []), [r])))"

text \<open>
  The body of the outer \<open>try\<close>: the response it returns, or the exception it throws, and
  the requests made to the model service on the way.
\<close>

definition handler_try :: "env \<Rightarrow> request \<Rightarrow> (exn + response) \<times> completion_request list" where
  "handler_try e req =
     (case body req of
        None \<Rightarrow> (Inl TypeError, [])
      | Some JNull \<Rightarrow> (Inl TypeError, [])
      | Some b \<Rightarrow>
          (case get_prop b (utf16 ''question'') of
             Some (JStr question) \<Rightarrow>
               if question = [] then (Inr (reply 400 (utf16 ''Question is required'') []), [])
               else if \<not> truthy (get_prop b (utf16 ''gameId'')) then
                 (Inr (reply 400 (utf16 ''Game ID is required'') []), [])
               else
                 (case catanRulebookChunks e of
                    None \<Rightarrow>
                      (Inr (reply 500 (utf16 ''I had trouble loading the rulebook. Please try again.'') []), [])
                  | Some allChunks \<Rightarrow>
                      (let chunks = chunksFor (get_prop b (utf16 ''gameId'')) allChunks
                       in if length chunks = 0 then
                            (case template (get_prop b (utf16 ''gameId'')) of
                               None \<Rightarrow> (Inl TypeError, [])
                             | Some name \<Rightarrow>
                                 (Inr (reply 404 ((utf16 ''No rulebook found for game: '') @ name) []), []))
                          else
                            (let relevantChunks =
                                   retrieveChunks (toLowerCase e) question chunks 5
                             in if length relevantChunks = 0 then
                                  (Inr (reply 200
                                     (utf16 ''I couldn't find relevant information in the rulebook excerpts for that question. Please check the physical rulebook or try rephrasing your question.'')
                                     []), [])
                                else answer_from_model e question relevantChunks)))
           | other \<Rightarrow> (Inr (reply 400 (utf16 ''Question is required'') []), [])))"

definition handler :: "env \<Rightarrow> request \<Rightarrow> response \<times> completion_request list" where
  "handler e req =
     (if method req \<noteq> (utf16 ''POST'') then (reply 405 (utf16 ''Method not allowed'') [], [])
      else
        (case handler_try e req of
           (Inr res, calls) \<Rightarrow> (res, calls)
         | (Inl x, calls) \<Rightarrow>
             (reply 500 (utf16 ''I had trouble processing your question. Please try again.'') [], calls)))"

section \<open>The rules client\<close>

text \<open>
  What \<open>fetch('/api/rules/answer', ...)\<close> comes to on the client: it rejects, or a
  response with a status arrives whose body is the endpoint's JSON, or is not JSON.
\<close>

datatype fetched =
    Unreachable
  | Unparsable nat
  | Delivered response

definition ok :: "nat \<Rightarrow> bool" where
  "ok code = (200 \<le> code \<and> code \<le> 299)"

text \<open>
  \<open>askRulebook\<close> posts \<open>{gameId, question}\<close>. Its \<open>return res.json()\<close> is not awaited
  inside the \<open>try\<close>, so a body that does not parse rejects the promise the caller
  awaits.
\<close>

definition askRulebook ::
  "(request \<Rightarrow> fetched) \<Rightarrow> jsstring \<Rightarrow> jsstring \<Rightarrow> exn + (jsstring \<times> (nat \<times> jsstring) list)" where
  "askRulebook server question game =
     (case server \<lparr>method = (utf16 ''POST''),
                    body = Some (JObj [((utf16 ''gameId''), JStr game), ((utf16 ''question''), JStr question)])\<rparr> of
        Unreachable \<Rightarrow>
          Inr ((utf16 ''I couldn't reach the rules engine. Please check your connection and try again.''), [])
      | Unparsable code \<Rightarrow>
          if \<not> ok code then Inr ((utf16 ''I couldn't reach the rules engine. Please try again.''), [])
          else Inl SyntaxError
      | Delivered res \<Rightarrow>
          if \<not> ok (status res) then Inr ((utf16 ''I couldn't reach the rules engine. Please try again.''), [])
          else Inr (answer res, sources res))"

text \<open>The text of the assistant's transcript entry that \<open>onresult\<close> appends for a query.\<close>

definition assistantText :: "(request \<Rightarrow> fetched) \<Rightarrow> jsstring \<Rightarrow> jsstring" where
  "assistantText server query =
     (case askRulebook server query (utf16 ''catan-base'') of
        Inr (a, srcs) \<Rightarrow>
          limitedAnswer
            (if a = [] then (utf16 ''I couldn't find a matching rule in the rulebook excerpts.'') else a)
      | Inl x \<Rightarrow> (utf16 ''I had trouble getting an answer. Please try again.''))"

text \<open>The answer endpoint as the server the client talks to.\<close>

definition endpoint :: "env \<Rightarrow> request \<Rightarrow> fetched" where
  "endpoint e req = Delivered (fst (handler e req))"

section \<open>The voice session\<close>

datatype role = User | Assistant

datatype timer = Restart | Retry | ClearRetryMessage

text \<open>A call on the speech capabilities.\<close>

datatype call = Start | Stop | Speak jsstring | Cancel

text \<open>\<open>recognition.start()\<close> returns, or throws an error with a name and a message.\<close>

datatype start_result = Started | Threw jsstring jsstring

text \<open>
  The refs and the state of \<open>SessionScreen\<close> after its initialising effect, together with
  the pending \<open>setTimeout\<close> callbacks (delay in milliseconds and callback) and the calls
  made on the capabilities so far. \<open>recognition\<close> says that \<open>recognitionRef.current\<close> is
  set, \<open>speechSynthesis\<close> that the browser has speech output.
\<close>

record session =
  listening :: bool
  speechSupported :: bool
  error :: "jsstring option"
  isHushed :: bool
  transcript :: "(role \<times> jsstring) list"
  recognition :: bool
  speechSynthesis :: bool
  isHolding :: bool
  recognitionActive :: bool
  retryCount :: nat
  timers :: "(nat \<times> timer) list"
  calls :: "call list"

definition maxRetries :: nat where
  "maxRetries = 3"

definition bullet :: jsstring where
  \<comment> \<open>U+2022\<close>
  "bullet = [0x2022]"

definition guidance :: jsstring where
  "guidance =
     (utf16 ''Cannot connect to speech recognition service. This may be due to:'') @ newline
     @ bullet @ (utf16 '' Firewall blocking Google services'') @ newline
     @ bullet @ (utf16 '' VPN or network restrictions'') @ newline
     @ bullet @ (utf16 '' Regional service limitations'') @ newline @ newline
     @ (utf16 ''Try refreshing the page or check your network settings.'')"

definition retryMessage :: "nat \<Rightarrow> jsstring" where
  "retryMessage n = (utf16 ''Connection issue (retry '') @ decimal n @ (utf16 ''/'') @ decimal maxRetries @ (utf16 '')...'')"

definition onstart :: "session \<Rightarrow> session" where
  "onstart s = s\<lparr>recognitionActive := True, listening := True, error := None, retryCount := 0\<rparr>"

definition onend :: "session \<Rightarrow> session" where
  "onend s0 =
     (let s = s0\<lparr>recognitionActive := False, listening := False\<rparr>
      in if isHolding s \<and> recognition s then s\<lparr>timers := timers s @ [(100, Restart)]\<rparr>
         else s)"

definition onerror :: "jsstring \<Rightarrow> session \<Rightarrow> session" where
  "onerror kind s0 =
     (let s = s0\<lparr>recognitionActive := False, listening := False\<rparr>
      in if kind = (utf16 ''no-speech'') then s\<lparr>error := None\<rparr>
         else if kind = (utf16 ''audio-capture'') then
           s\<lparr>isHolding := False,
             error := Some (utf16 ''Microphone not found or not accessible. Please check your microphone settings.'')\<rparr>
         else if kind = (utf16 ''not-allowed'') then
           s\<lparr>isHolding := False,
             error := Some (utf16 ''Microphone permission denied. Please allow microphone access in your browser settings and refresh the page.'')\<rparr>
         else if kind = (utf16 ''network'') then
           (if isHolding s \<and> retryCount s < maxRetries then
              s\<lparr>retryCount := retryCount s + 1,
                timers := timers s @ [(500, Retry), (2000, ClearRetryMessage)],
                error := Some (retryMessage (retryCount s + 1))\<rparr>
            else
              s\<lparr>isHolding := False, retryCount := 0, error := Some guidance\<rparr>)
         else if kind = (utf16 ''aborted'') then s\<lparr>retryCount := 0, error := None\<rparr>
         else
           s\<lparr>isHolding := False,
             error := Some (utf16 ''Speech recognition unavailable. Please try again.'')\<rparr>)"

text \<open>The three timer callbacks: of \<open>onend\<close>, and the two of \<open>onerror\<close>.\<close>

definition restart_callback :: "start_result \<Rightarrow> session \<Rightarrow> session" where
  \<comment> \<open>an exception of \<open>start()\<close> here is caught by nothing and changes nothing\<close>
  "restart_callback r s =
     (if isHolding s \<and> recognition s then s\<lparr>calls := calls s @ [Start]\<rparr> else s)"

definition retry_callback :: "start_result \<Rightarrow> session \<Rightarrow> session" where
  "retry_callback r s0 =
     (if isHolding s0 \<and> recognition s0 \<and> \<not> recognitionActive s0 then
        (let s = s0\<lparr>calls := calls s0 @ [Start]\<rparr>
         in case r of
              Started \<Rightarrow> s
            | Threw name message \<Rightarrow>
                if retryCount s \<ge> maxRetries then
                  s\<lparr>isHolding := False,
                    error := Some (utf16 ''Cannot connect to speech recognition service. Check your internet connection or firewall settings.'')\<rparr>
                else s)
      else s0)"

definition clear_callback :: "session \<Rightarrow> session" where
  "clear_callback s = (if retryCount s < maxRetries then s\<lparr>error := None\<rparr> else s)"

text \<open>
  \<open>onresult\<close> appends the user's entry, awaits \<open>askRulebook\<close>, then appends the
  assistant's entry and speaks it unless hushed; the handler is taken in one step, the
  answer being what the server returns for the query.
\<close>

definition onresult :: "(request \<Rightarrow> fetched) \<Rightarrow> jsstring \<Rightarrow> session \<Rightarrow> session" where
  "onresult server query s0 =
     (let s = s0\<lparr>transcript := transcript s0 @ [(User, query)]\<rparr>;
          t = assistantText server query
      in s\<lparr>transcript := transcript s @ [(Assistant, t)],
           calls := (if \<not> isHushed s \<and> speechSynthesis s then calls s @ [Speak t] else calls s)\<rparr>)"

definition startListening :: "start_result \<Rightarrow> session \<Rightarrow> session" where
  "startListening r s0 =
     (if \<not> speechSupported s0 \<or> \<not> recognition s0 then
        s0\<lparr>error := Some (if \<not> recognition s0
                           then (utf16 ''Speech recognition not initialized. Please refresh the page.'')
                           else (utf16 ''Speech recognition is not available in this browser.''))\<rparr>
      else
        (let s = s0\<lparr>isHolding := True, error := None, retryCount := 0\<rparr>
         in if \<not> recognitionActive s then
              (let s' = s\<lparr>calls := calls s @ [Start]\<rparr>
               in case r of
                    Started \<Rightarrow> s'
                  | Threw name message \<Rightarrow>
                      if message \<noteq> [] \<and> (str_includes message (utf16 ''already started'')
                                           \<or> str_includes message (utf16 ''started'')) then
                        s'\<lparr>recognitionActive := True, listening := True\<rparr>
                      else if name = (utf16 ''InvalidStateError'') \<or> str_includes message (utf16 ''not allowed'') then
                        s'\<lparr>error := Some (utf16 ''Microphone permission required. Please allow microphone access and refresh.''),
                           isHolding := False\<rparr>
                      else
                        s'\<lparr>error := Some ((utf16 ''Could not start listening: '')
                                           @ (if message \<noteq> [] then message else name)),
                           isHolding := False\<rparr>)
            else s))"

definition stopListening :: "session \<Rightarrow> session" where
  "stopListening s0 =
     (let s = s0\<lparr>isHolding := False\<rparr>
      in if \<not> recognition s then s
         else if recognitionActive s then s\<lparr>calls := calls s @ [Stop], recognitionActive := False\<rparr>
         else s)"

definition handleHushToggle :: "session \<Rightarrow> session" where
  "handleHushToggle s0 =
     (let s = s0\<lparr>isHushed := \<not> isHushed s0\<rparr>
      in if speechSynthesis s then s\<lparr>calls := calls s @ [Cancel]\<rparr> else s)"

text \<open>
  Everything that happens to a session is one of these events, handled one at a time:
  the user's gestures, the capability's callbacks, and a pending timer coming due
  (with what \<open>start()\<close> does, where the handler calls it).
\<close>

datatype event =
    Press start_result
  | Release
  | OnStart
  | OnEnd
  | OnError jsstring
  | OnResult jsstring
  | Timeout timer start_result
  | HushToggle

definition delay :: "timer \<Rightarrow> nat" where
  "delay t = (case t of Restart \<Rightarrow> 100 | Retry \<Rightarrow> 500 | ClearRetryMessage \<Rightarrow> 2000)"

definition timeout :: "timer \<Rightarrow> start_result \<Rightarrow> session \<Rightarrow> session" where
  "timeout t r s0 =
     (if (delay t, t) \<in> set (timers s0) then
        (let s = s0\<lparr>timers := remove1 (delay t, t) (timers s0)\<rparr>
         in case t of
              Restart \<Rightarrow> restart_callback r s
            | Retry \<Rightarrow> retry_callback r s
            | ClearRetryMessage \<Rightarrow> clear_callback s)
      else s0)"

fun step :: "(request \<Rightarrow> fetched) \<Rightarrow> session \<Rightarrow> event \<Rightarrow> session" where
  "step server s (Press r) = startListening r s"
| "step server s Release = stopListening s"
| "step server s OnStart = onstart s"
| "step server s OnEnd = onend s"
| "step server s (OnError kind) = onerror kind s"
| "step server s (OnResult query) = onresult server query s"
| "step server s (Timeout t r) = timeout t r s"
| "step server s HushToggle = handleHushToggle s"

definition run :: "(request \<Rightarrow> fetched) \<Rightarrow> session \<Rightarrow> event list \<Rightarrow> session" where
  "run server s evs = foldl (step server) s evs"

text \<open>The session once the initialising effect has set the recognition up.\<close>

definition mounted :: session where
  "mounted =
     \<lparr>listening = False, speechSupported = True, error = None, isHushed = False,
      transcript = [], recognition = True, speechSynthesis = True, isHolding = False,
      recognitionActive = False, retryCount = 0, timers = [], calls = []\<rparr>"

section \<open>A small rulebook\<close>

definition roads :: chunk where
  "roads = \<lparr>id = (utf16 ''catan-4''), gameId = (utf16 ''catan-base''), page = 4, section = (utf16 ''Building Roads''),
             text = (utf16 ''Roads cost one brick and one wood.'')\<rparr>"

definition trading :: chunk where
  "trading = \<lparr>id = (utf16 ''catan-7''), gameId = (utf16 ''catan-base''), page = 7, section = (utf16 ''Trading''),
               text = (utf16 ''Players can trade resources with the bank.'')\<rparr>"

definition castle :: chunk where
  "castle = \<lparr>id = (utf16 ''other-1''), gameId = (utf16 ''other-game''), page = 1, section = (utf16 ''Roads''),
              text = (utf16 ''Build a road to the castle.'')\<rparr>"

text \<open>
  A model service that comes to the same for every request, and one that answers every
  request with one completion of the given text.
\<close>

definition replies :: "completion \<Rightarrow> completion_request \<Rightarrow> completion" where
  "replies c r = c"

definition completes :: "jsstring \<Rightarrow> completion_request \<Rightarrow> completion" where
  "completes t =
     replies (Parsed (JObj [((utf16 ''choices''), JArr [JObj [((utf16 ''message''), JObj [((utf16 ''content''), JStr t)])]])]))"

text \<open>What \<open>toLowerCase\<close> does to a string of ASCII characters, as all those below are.\<close>

definition asciiLower :: "jsstring \<Rightarrow> jsstring" where
  "asciiLower s = map (\<lambda>c. if 0x41 \<le> c \<and> c \<le> 0x5A then c + 0x20 else c) s"

definition rulebook :: "(completion_request \<Rightarrow> completion) \<Rightarrow> env" where
  "rulebook service =
     \<lparr>toLowerCase = asciiLower, catanRulebookChunks = Some [trading, castle, roads], OPENAI_API_KEY = Some (utf16 ''sk-test''),
      openai = service\<rparr>"

definition post :: "jsstring \<Rightarrow> jsstring \<Rightarrow> request" where
  "post game question =
     \<lparr>method = (utf16 ''POST''),
      body = Some (JObj [((utf16 ''gameId''), JStr game), ((utf16 ''question''), JStr question)])\<rparr>"

section \<open>Properties of the string functions\<close>

lemma utf16_eq_Nil [simp]: "utf16 s = [] \<longleftrightarrow> s = []"
  by (simp add: utf16_def)

lemma length_utf16 [simp]: "length (utf16 s) = length s"
  by (simp add: utf16_def)

lemma utf16_inject [simp]: "utf16 a = utf16 b \<longleftrightarrow> a = b"
proof -
  have "inj (of_char :: char \<Rightarrow> int)"
    by (rule inj_on_inverseI [where g = char_of]) simp
  then show ?thesis by (simp add: utf16_def inj_map_eq_map)
qed

lemma utf16_separators: "utf16 ''. '' = [0x2E, 0x20]" "utf16 ''.'' = [0x2E]"
  by (simp_all add: utf16_def)

declare split_plus.simps(2) [simp del]

lemma split_plus_sep_Nil [simp]: "cls c \<Longrightarrow> split_plus cls [c] = [[], []]"
  by (simp add: split_plus.simps(2))

lemma split_plus_sep_sep [simp]:
  "cls c \<Longrightarrow> cls d \<Longrightarrow> split_plus cls (c # d # ds) = split_plus cls (d # ds)"
  by (simp add: split_plus.simps(2) [of cls c])

lemma split_plus_sep_then_plain [simp]:
  "cls c \<Longrightarrow> \<not> cls d \<Longrightarrow> split_plus cls (c # d # ds) = [] # split_plus cls (d # ds)"
  by (simp add: split_plus.simps(2) [of cls c])

lemma split_plus_nonempty: "split_plus cls s \<noteq> []"
proof (induction s)
  case Nil
  show ?case by simp
next
  case (Cons c cs)
  show ?case
  proof (cases "cls c")
    case True
    show ?thesis
    proof (cases cs)
      case Nil
      then show ?thesis using True by simp
    next
      case (Cons d ds)
      then show ?thesis using True Cons.IH by (cases "cls d") simp_all
    qed
  next
    case False
    then show ?thesis by (simp add: split_plus.simps(2) [of cls c] split: list.splits)
  qed
qed

lemma split_plus_plain:
  "\<not> cls c \<Longrightarrow>
     split_plus cls (c # cs) = (c # hd (split_plus cls cs)) # tl (split_plus cls cs)"
  using split_plus_nonempty [of cls cs]
  by (cases "split_plus cls cs") (simp_all add: split_plus.simps(2) [of cls c])

lemma split_plus_cases:
  obtains (empty) "s = []"
  | (last_sep) c where "s = [c]" "cls c"
  | (sep_sep) c d ds where "s = c # d # ds" "cls c" "cls d"
  | (sep_plain) c d ds where "s = c # d # ds" "cls c" "\<not> cls d"
  | (plain) c cs where "s = c # cs" "\<not> cls c"
  by (cases s; cases "tl s") auto

lemma split_plus_pieces: "p \<in> set (split_plus cls s) \<Longrightarrow> c \<in> set p \<Longrightarrow> \<not> cls c"
proof (induction s arbitrary: p)
  case Nil
  then show ?case by simp
next
  case (Cons a s')
  show ?case
  proof (cases "a # s'" rule: split_plus_cases [where cls = cls])
    case empty
    then show ?thesis by simp
  next
    case (last_sep c')
    then show ?thesis using Cons.prems by auto
  next
    case (sep_sep c' d ds)
    then show ?thesis using Cons by auto
  next
    case (sep_plain c' d ds)
    then show ?thesis using Cons by auto
  next
    case (plain c' cs)
    let ?sp = "split_plus cls s'"
    have ne: "?sp \<noteq> []" by (rule split_plus_nonempty)
    have "p = a # hd ?sp \<or> p \<in> set (tl ?sp)"
      using Cons.prems(1) plain by (simp add: split_plus_plain)
    moreover have "hd ?sp \<in> set ?sp" using ne by simp
    moreover have "set (tl ?sp) \<subseteq> set ?sp" using ne by (cases ?sp) auto
    ultimately show ?thesis using Cons.IH Cons.prems(2) plain by auto
  qed
qed

lemma split_plus_plain_prefix:
  "\<forall>c\<in>set p. \<not> cls c \<Longrightarrow>
     split_plus cls (p @ s) = (p @ hd (split_plus cls s)) # tl (split_plus cls s)"
proof (induction p)
  case Nil
  then show ?case using split_plus_nonempty [of cls s] by simp
next
  case (Cons a p)
  then show ?case by (simp add: split_plus_plain)
qed

lemma split_plus_rejoined:
  assumes "xs \<noteq> []" and "\<forall>x\<in>set xs. \<forall>c\<in>set x. \<not> sentenceEnd c"
  shows "split_plus sentenceEnd (join (utf16 ''. '') xs @ (utf16 ''.''))
           = hd xs # map ((#) 0x20) (tl xs) @ [[]]"
  using assms
proof (induction xs rule: induct_list012)
  case 1
  then show ?case by simp
next
  case (2 x)
  have dot: "split_plus sentenceEnd (utf16 ''.'') = [[], []]"
    by (simp add: sentenceEnd_def utf16_separators)
  have "split_plus sentenceEnd (x @ (utf16 ''.'')) = (x @ hd (split_plus sentenceEnd (utf16 ''.''))) # tl (split_plus sentenceEnd (utf16 ''.''))"
    using "2.prems" by (intro split_plus_plain_prefix) simp
  then show ?case unfolding dot by simp
next
  case (3 x y ys)
  let ?r = "join (utf16 ''. '') (y # ys) @ (utf16 ''.'')"
  have ih: "split_plus sentenceEnd ?r = y # map ((#) 0x20) ys @ [[]]"
    using "3.IH"(2) "3.prems" by simp
  have sp: "split_plus sentenceEnd (0x20 # ?r) = (0x20 # y) # map ((#) 0x20) ys @ [[]]"
    using ih by (simp add: split_plus_plain sentenceEnd_def)
  have "split_plus sentenceEnd (0x2E # 0x20 # ?r) = [] # split_plus sentenceEnd (0x20 # ?r)"
    by (rule split_plus_sep_then_plain) (simp_all add: sentenceEnd_def)
  then have "split_plus sentenceEnd (x @ 0x2E # 0x20 # ?r) = x # split_plus sentenceEnd (0x20 # ?r)"
    using split_plus_plain_prefix [of x sentenceEnd "0x2E # 0x20 # ?r"] "3.prems" by simp
  then show ?case using sp by (simp add: utf16_separators)
qed

lemma trim_Nil_iff: "trim s = [] \<longleftrightarrow> (\<forall>c\<in>set s. whitespace c)"
proof
  assume t: "trim s = []"
  show "\<forall>c\<in>set s. whitespace c"
  proof (rule ccontr)
    assume "\<not> (\<forall>c\<in>set s. whitespace c)"
    then have ne: "dropWhile whitespace s \<noteq> []" by simp
    then have "\<not> whitespace (hd (dropWhile whitespace s))" by (rule hd_dropWhile)
    moreover have "hd (dropWhile whitespace s) \<in> set (rev (dropWhile whitespace s))"
      using ne by simp
    ultimately have "dropWhile whitespace (rev (dropWhile whitespace s)) \<noteq> []"
      by (auto simp del: set_rev)
    then show False using t by (simp add: trim_def)
  qed
next
  assume "\<forall>c\<in>set s. whitespace c"
  then show "trim s = []" by (auto simp: trim_def dest: set_dropWhileD)
qed

lemma sum_list_Suc_length:
  "(\<Sum>x\<leftarrow>ys. Suc (length x)) = sum_list (map length ys) + length ys"
  by (induction ys) simp_all

lemma length_join:
  "length (join sep xs) = sum_list (map length xs) + length sep * (length xs - 1)"
  by (induction sep xs rule: join.induct) simp_all

lemma allSentences_plain:
  "x \<in> set (allSentences s) \<Longrightarrow> (\<forall>c\<in>set x. \<not> sentenceEnd c) \<and> (\<exists>c\<in>set x. \<not> whitespace c)"
  using split_plus_pieces [of x sentenceEnd s]
  by (auto simp: allSentences_def trim_Nil_iff)

lemma allSentences_limitedAnswer:
  "allSentences (limitedAnswer s) =
     (case limitedSentences s of [] \<Rightarrow> [] | x # xs \<Rightarrow> x # map ((#) 0x20) xs)"
proof (cases "limitedSentences s")
  case Nil
  then show ?thesis
    by (simp add: limitedAnswer_def allSentences_def trim_def)
next
  case (Cons x xs)
  have mem: "\<And>y. y \<in> set (x # xs) \<Longrightarrow> y \<in> set (allSentences s)"
    using Cons by (metis in_set_takeD limitedSentences_def)
  have plain: "\<forall>y\<in>set (x # xs). \<forall>c\<in>set y. \<not> sentenceEnd c"
    using mem allSentences_plain by blast
  have nonblank: "\<forall>y\<in>set (x # xs). \<exists>c\<in>set y. \<not> whitespace c"
    using mem allSentences_plain by blast
  have "split_plus sentenceEnd (limitedAnswer s) = x # map ((#) 0x20) xs @ [[]]"
    using split_plus_rejoined [of "x # xs"] plain Cons
    by (simp add: limitedAnswer_def)
  moreover have "filter (\<lambda>s. length (trim s) > 0) (x # map ((#) 0x20) xs @ [[]])
                   = x # map ((#) 0x20) xs"
    using nonblank by (auto simp: trim_Nil_iff filter_id_conv)
  ultimately show ?thesis using Cons by (simp add: allSentences_def)
qed

lemma limitedAnswer_twice:
  "limitedAnswer (limitedAnswer s) =
     (case limitedSentences s of [] \<Rightarrow> []
      | x # xs \<Rightarrow> join (utf16 ''. '') (x # map ((#) 0x20) xs) @ (utf16 ''.''))"
proof (cases "limitedSentences s")
  case Nil
  then show ?thesis
    using allSentences_limitedAnswer [of s]
    by (simp add: limitedAnswer_def [of "limitedAnswer s"] limitedSentences_def [of "limitedAnswer s"])
next
  case (Cons x xs)
  have "length (x # xs) \<le> 3" using Cons [symmetric] by (simp add: limitedSentences_def)
  then have "take 3 (x # map ((#) 0x20) xs) = x # map ((#) 0x20) xs" by simp
  then show ?thesis
    using allSentences_limitedAnswer [of s] Cons
    by (simp add: limitedAnswer_def [of "limitedAnswer s"] limitedSentences_def [of "limitedAnswer s"])
qed

lemma concat_hd_tl: "xs \<noteq> [] \<Longrightarrow> hd xs @ concat (tl xs) = concat xs"
  by (cases xs) simp_all

lemma concat_split_plus: "concat (split_plus cls s) = filter (\<lambda>c. \<not> cls c) s"
proof (induction s)
  case Nil
  show ?case by simp
next
  case (Cons a s')
  show ?case
  proof (cases "a # s'" rule: split_plus_cases [where cls = cls])
    case empty
    then show ?thesis by simp
  next
    case (last_sep c')
    then show ?thesis by auto
  next
    case (sep_sep c' d ds)
    then show ?thesis using Cons by auto
  next
    case (sep_plain c' d ds)
    then show ?thesis using Cons by auto
  next
    case (plain c' cs)
    then show ?thesis
      using Cons.IH split_plus_nonempty [of cls s']
      by (simp add: split_plus_plain concat_hd_tl)
  qed
qed

lemma allSentences_Nil_iff:
  "allSentences a = [] \<longleftrightarrow> (\<forall>c\<in>set a. sentenceEnd c \<or> whitespace c)"
proof -
  have "allSentences a = [] \<longleftrightarrow> (\<forall>p\<in>set (split_plus sentenceEnd a). \<forall>c\<in>set p. whitespace c)"
    by (auto simp: allSentences_def filter_empty_conv trim_Nil_iff)
  also have "\<dots> \<longleftrightarrow> (\<forall>c\<in>set (concat (split_plus sentenceEnd a)). whitespace c)"
    by auto
  also have "\<dots> \<longleftrightarrow> (\<forall>c\<in>set a. sentenceEnd c \<or> whitespace c)"
    unfolding concat_split_plus by auto
  finally show ?thesis .
qed

lemma limitedAnswer_Nil_iff: "limitedAnswer a = [] \<longleftrightarrow> allSentences a = []"
  by (cases "allSentences a") (simp_all add: limitedAnswer_def limitedSentences_def)

lemma limitedAnswer_twice_same_iff:
  "limitedAnswer (limitedAnswer s) = limitedAnswer s \<longleftrightarrow> length (allSentences s) \<le> 1"
proof (cases "limitedSentences s")
  case Nil
  then have "allSentences s = []" by (simp add: limitedSentences_def)
  then show ?thesis using Nil limitedAnswer_twice [of s] by (simp add: limitedAnswer_def)
next
  case (Cons x xs)
  show ?thesis
  proof (cases xs)
    case Nil
    then have "length (allSentences s) \<le> 1"
      using Cons by (cases "allSentences s") (auto simp: limitedSentences_def take_Suc_conv_app_nth split: if_splits)
    then show ?thesis using Nil Cons limitedAnswer_twice [of s] by (simp add: limitedAnswer_def)
  next
    case (Cons y ys)
    have "length (limitedSentences s) \<ge> 2" using Cons \<open>limitedSentences s = x # xs\<close> by simp
    then have big: "\<not> length (allSentences s) \<le> 1" by (simp add: limitedSentences_def)
    have "length (limitedAnswer (limitedAnswer s)) \<noteq> length (limitedAnswer s)"
      using Cons \<open>limitedSentences s = x # xs\<close> limitedAnswer_twice [of s]
      by (simp add: limitedAnswer_def [of s] length_join comp_def sum_list_Suc_length)
    then show ?thesis using big by auto
  qed
qed

section \<open>The sentence limit applied twice\<close>

text \<open>
  Claim C9: the three-sentence limit is idempotent, \<open>limit (limit s) = limit s\<close> for every
  answer \<open>s\<close>. The code keeps the sentences whose trimmed text is not empty and joins
  them untrimmed, so a sentence after the first keeps the space that followed the full
  stop and gets the separator's space before it: one pass leaves two spaces between
  the sentences of \<open>Yes. No.\<close>, a second pass three.
\<close>

theorem limit_not_idempotent:
  "limitedAnswer (utf16 ''Yes. No.'') = utf16 ''Yes.  No.''
   \<and> limitedAnswer (limitedAnswer (utf16 ''Yes. No.'')) = utf16 ''Yes.   No.''"
  by code_simp

section \<open>The score\<close>

lemma fold_count:
  "fold (\<lambda>q s. if P q then (let m = g q in s + int (length m)) else s) xs a
     = a + (\<Sum>q \<leftarrow> filter P xs. int (length (g q)))"
  by (induction xs arbitrary: a) (simp_all add: Let_def)

lemma fold_bonus:
  "fold (\<lambda>q s. if Q q then s + 2 else s) xs (a::int) = a + 2 * int (length (filter Q xs))"
  by (induction xs arbitrary: a) simp_all

text \<open>
  The two loops of \<open>scoreChunk\<close> as sums over the pieces that \<open>split(/\s+/)\<close> returns,
  the empty pieces among them.
\<close>

lemma scoreChunk_sums:
  "scoreChunk lower question c =
     (\<Sum>q \<leftarrow> filter (\<lambda>q. length q > 2) (split_plus whitespace (lower question)).
        int (length (filter (\<lambda>t. str_includes t q \<or> str_includes q t)
                       (split_plus whitespace (lower (text c))))))
     + 2 * int (length (filter (\<lambda>q. str_includes (lower (section c)) q)
                          (split_plus whitespace (lower question))))"
  unfolding scoreChunk_def Let_def fold_count [unfolded Let_def] fold_bonus
  by simp

text \<open>
  Where splitting leaves no empty piece (no white space at either end of the lower-cased
  question and chunk text, neither of them empty), the pieces are the tokens and the
  score is the specification's.
\<close>

lemma scoreChunk_spec_on_words:
  assumes "[] \<notin> set (split_plus whitespace (lower question))"
    and "[] \<notin> set (split_plus whitespace (lower (text c)))"
  shows "scoreChunk lower question c = spec_score lower question c"
proof -
  have "tokens (lower question) = split_plus whitespace (lower question)"
    unfolding tokens_def using assms(1) by (intro filter_True) auto
  moreover have "tokens (lower (text c)) = split_plus whitespace (lower (text c))"
    unfolding tokens_def using assms(2) by (intro filter_True) auto
  ultimately show ?thesis
    by (simp add: scoreChunk_sums spec_score_def Let_def)
qed

text \<open>
  Claim C4: the score is the sum, over the white-space separated lower-cased question
  tokens longer than 2 characters, of the number of lower-cased chunk-text tokens where
  one token contains the other, plus 2 for each question token that occurs in the
  lower-cased section label. The code takes the pieces of \<open>split(/\s+/)\<close> for the tokens,
  and white space at an end of the question (or an empty question) leaves an empty
  piece, which is no word and yet occurs in every section label: the question \<open>zzz\<close>
  followed by a space scores 2 on a chunk it shares no word with, where the claim's sum
  is 0, and the handler goes on to call the model service for it.
\<close>

theorem scoreChunk_counts_empty_piece:
  "scoreChunk asciiLower (utf16 ''zzz '') trading = 2
   \<and> spec_score asciiLower (utf16 ''zzz '') trading = 0
   \<and> scoreChunk asciiLower (utf16 ''zzz'') trading = 0
   \<and> length (snd (handler (rulebook (completes (utf16 ''Yes.'')))
                     (post (utf16 ''catan-base'') (utf16 ''zzz '')))) = 1"
  by code_simp

section \<open>Retrieval\<close>

lemma set_insert_cmp: "set (insert_cmp cmp a xs) = insert a (set xs)"
  by (induction xs) auto

lemma length_insert_cmp: "length (insert_cmp cmp a xs) = Suc (length xs)"
  by (induction xs) auto

lemma set_sort_cmp: "set (sort_cmp cmp xs) = set xs"
  by (induction xs) (simp_all add: sort_cmp_def set_insert_cmp)

lemma length_sort_cmp: "length (sort_cmp cmp xs) = length xs"
  by (induction xs) (simp_all add: sort_cmp_def length_insert_cmp)

lemma sorted_insert_cmp:
  "sorted_wrt (\<lambda>a b. key b \<le> (key a :: int)) xs \<Longrightarrow>
     sorted_wrt (\<lambda>a b. key b \<le> key a) (insert_cmp (\<lambda>a b. key b - key a) x xs)"
  by (induction xs) (auto simp: set_insert_cmp)

lemma sorted_sort_cmp:
  "sorted_wrt (\<lambda>a b. key b \<le> (key a :: int)) (sort_cmp (\<lambda>a b. key b - key a) xs)"
  by (induction xs) (simp_all add: sort_cmp_def sorted_insert_cmp)

lemma filter_insert_cmp:
  "filter (\<lambda>x. key x = k) (insert_cmp (\<lambda>a b. key b - key a) x xs)
     = (if key x = (k::int) then x # filter (\<lambda>x. key x = k) xs else filter (\<lambda>x. key x = k) xs)"
  by (induction xs) auto

lemma filter_sort_cmp:
  "filter (\<lambda>x. key x = (k::int)) (sort_cmp (\<lambda>a b. key b - key a) xs) = filter (\<lambda>x. key x = k) xs"
  by (induction xs) (simp_all add: sort_cmp_def filter_insert_cmp)

lemma insert_cmp_map:
  "insert_cmp (\<lambda>a b. key b - key a) (f x) (map f xs)
     = map f (insert_cmp (\<lambda>a b. key (f b) - key (f a)) x xs)"
  by (induction xs) simp_all

lemma sort_cmp_map:
  "sort_cmp (\<lambda>a b. key b - key a) (map f xs) = map f (sort_cmp (\<lambda>a b. key (f b) - key (f a)) xs)"
  by (induction xs) (simp_all add: sort_cmp_def insert_cmp_map)

lemma retrieveChunks_eq:
  "retrieveChunks lower question chunks topN
     = take topN (sort_cmp (\<lambda>a b. scoreChunk lower question b - scoreChunk lower question a)
                   (filter (\<lambda>c. scoreChunk lower question c > 0) chunks))"
proof -
  let ?mk = "\<lambda>c. \<lparr>chunk = c, score = scoreChunk lower question c\<rparr>"
  have "filter (\<lambda>item. score item > 0) (map ?mk chunks)
          = map ?mk (filter (\<lambda>c. scoreChunk lower question c > 0) chunks)"
    by (simp add: filter_map comp_def)
  moreover have "sort_cmp (\<lambda>a b. score b - score a) (map ?mk ys)
          = map ?mk (sort_cmp (\<lambda>a b. scoreChunk lower question b - scoreChunk lower question a) ys)" for ys
    using sort_cmp_map [of score ?mk ys] by simp
  moreover have "map chunk (take topN (map ?mk zs)) = take topN zs" for zs
    by (simp add: take_map comp_def)
  ultimately show ?thesis
    by (simp only: retrieveChunks_def scoredChunks_def Let_def)
qed

lemma filter_take_prefix: "prefix (filter P (take n xs)) (filter P xs)"
proof -
  have "filter P xs = filter P (take n xs) @ filter P (drop n xs)"
    by (metis append_take_drop_id filter_append)
  then show ?thesis by (metis prefixI)
qed

text \<open>
  Claim C3: for every question, chunk list and \<open>topN\<close>, \<open>retrieveChunks\<close> returns only
  chunks whose score is greater than zero, in descending order of score, chunks of
  equal score in their input order (for every score \<open>k\<close> the returned chunks of score \<open>k\<close>
  are the first of the input's chunks of score \<open>k\<close>, in the same order), and at most
  \<open>topN\<close> of them (as many as \<open>topN\<close> and the number of positively scoring chunks allow);
  when no chunk scores above zero the result is the empty list. The function is total.
\<close>

theorem retrieveChunks_ranked:
  "(\<forall>c\<in>set (retrieveChunks lower question chunks topN). scoreChunk lower question c > 0)
   \<and> sorted_wrt (\<lambda>a b. scoreChunk lower question a \<ge> scoreChunk lower question b)
        (retrieveChunks lower question chunks topN)
   \<and> (\<forall>k. prefix (filter (\<lambda>c. scoreChunk lower question c = k) (retrieveChunks lower question chunks topN))
                  (filter (\<lambda>c. scoreChunk lower question c = k) chunks))
   \<and> length (retrieveChunks lower question chunks topN)
        = min topN (length (filter (\<lambda>c. scoreChunk lower question c > 0) chunks))
   \<and> length (retrieveChunks lower question chunks topN) \<le> topN
   \<and> ((\<forall>c\<in>set chunks. \<not> scoreChunk lower question c > 0) \<longrightarrow> retrieveChunks lower question chunks topN = [])"
proof -
  let ?f = "scoreChunk lower question"
  let ?pos = "filter (\<lambda>c. ?f c > 0) chunks"
  let ?sorted = "sort_cmp (\<lambda>a b. ?f b - ?f a) ?pos"
  have eq: "retrieveChunks lower question chunks topN = take topN ?sorted"
    by (rule retrieveChunks_eq)
  have 1: "\<forall>c\<in>set (take topN ?sorted). ?f c > 0"
  proof
    fix c assume "c \<in> set (take topN ?sorted)"
    then have "c \<in> set ?sorted" by (rule in_set_takeD)
    then have "c \<in> set ?pos" by (simp only: set_sort_cmp)
    then show "?f c > 0" by simp
  qed
  have 2: "sorted_wrt (\<lambda>a b. ?f a \<ge> ?f b) (take topN ?sorted)"
    using sorted_sort_cmp [of ?f ?pos] by (rule sorted_wrt_take)
  have 3: "\<forall>k. prefix (filter (\<lambda>c. ?f c = k) (take topN ?sorted)) (filter (\<lambda>c. ?f c = k) chunks)"
  proof
    fix k
    have a: "prefix (filter (\<lambda>c. ?f c = k) (take topN ?sorted)) (filter (\<lambda>c. ?f c = k) ?sorted)"
      by (rule filter_take_prefix)
    have b: "filter (\<lambda>c. ?f c = k) ?sorted = filter (\<lambda>c. ?f c = k) ?pos"
      by (rule filter_sort_cmp)
    have c: "prefix (filter (\<lambda>c. ?f c = k) ?pos) (filter (\<lambda>c. ?f c = k) chunks)"
    proof (cases "k > 0")
      case True
      have "filter (\<lambda>x. 0 < ?f x \<and> ?f x = k) chunks = filter (\<lambda>c. ?f c = k) chunks"
      proof (rule filter_cong [OF refl])
        fix x
        show "(0 < ?f x \<and> ?f x = k) = (?f x = k)" using True by auto
      qed
      then have "filter (\<lambda>c. ?f c = k) ?pos = filter (\<lambda>c. ?f c = k) chunks"
        by (simp only: filter_filter)
      then show ?thesis by (simp only: prefix_order.order_refl)
    next
      case False
      have "\<forall>x\<in>set ?pos. \<not> ?f x = k" using False by auto
      then have "filter (\<lambda>c. ?f c = k) ?pos = []"
        by (simp only: filter_empty_conv)
      then show ?thesis by (simp only: Nil_prefix)
    qed
    show "prefix (filter (\<lambda>c. ?f c = k) (take topN ?sorted)) (filter (\<lambda>c. ?f c = k) chunks)"
      using a c unfolding b by (rule prefix_order.order_trans)
  qed
  have 4: "length (take topN ?sorted) = min topN (length ?pos)"
    by (simp only: length_take length_sort_cmp min.commute)
  have 5: "length (take topN ?sorted) \<le> topN"
    by (simp only: length_take min.cobounded2)
  have 6: "(\<forall>c\<in>set chunks. \<not> ?f c > 0) \<longrightarrow> take topN ?sorted = []"
  proof
    assume "\<forall>c\<in>set chunks. \<not> ?f c > 0"
    then have "?pos = []" by (simp only: filter_empty_conv)
    then have "?sorted = []" by (simp add: sort_cmp_def)
    then show "take topN ?sorted = []" by (simp only: take_Nil)
  qed
  show ?thesis unfolding eq
    by (intro conjI) (fact 1, fact 2, fact 3, fact 4, fact 5, fact 6)
qed


theorem retrieveChunks_ranked_witness:
  "roads \<in> set (retrieveChunks asciiLower (utf16 ''How do I build a road?'') [trading, castle, roads, trading] 2)
   \<and> scoreChunk asciiLower (utf16 ''How do I build a road?'') roads > 0
   \<and> scoreChunk asciiLower (utf16 ''zzz'') trading = 0 \<and> scoreChunk asciiLower (utf16 ''zzz'') castle = 0 \<and> scoreChunk asciiLower (utf16 ''zzz'') roads = 0
   \<and> retrieveChunks asciiLower (utf16 ''zzz'') [trading, castle, roads, trading] 2 = []"
proof -
  let ?cs = "[trading, castle, roads, trading]"
  have m: "roads \<in> set (retrieveChunks asciiLower (utf16 ''How do I build a road?'') ?cs 2)" by code_simp
  have z: "scoreChunk asciiLower (utf16 ''zzz'') trading = 0" "scoreChunk asciiLower (utf16 ''zzz'') castle = 0"
    "scoreChunk asciiLower (utf16 ''zzz'') roads = 0" by code_simp+
  then have "\<forall>c\<in>set ?cs. \<not> scoreChunk asciiLower (utf16 ''zzz'') c > 0" by simp
  with retrieveChunks_ranked [of asciiLower "(utf16 ''zzz'')" ?cs 2]
  have "retrieveChunks asciiLower (utf16 ''zzz'') ?cs 2 = []" by blast
  moreover from retrieveChunks_ranked [of asciiLower "(utf16 ''How do I build a road?'')" ?cs 2] m
  have "scoreChunk asciiLower (utf16 ''How do I build a road?'') roads > 0" by blast
  ultimately show ?thesis using m z by blast
qed

section \<open>The answer endpoint: every path\<close>

lemma answer_of_nonempty: "answer_of r = Inr a \<Longrightarrow> a \<noteq> []"
  by (auto simp: answer_of_def split: if_splits option.splits json.splits)

lemma answer_from_model_cases:
  "answer_from_model e question rel = (r, sent) \<Longrightarrow>
     (\<exists>x. r = Inl x)
     \<or> (\<exists>a. r = Inr (reply 200 a []) \<and> a \<noteq> [])
     \<or> (\<exists>a. r = Inr (reply 200 a (map (\<lambda>c. (page c, section c)) rel)) \<and> a \<noteq> [])"
  by (auto simp: answer_from_model_def Let_def dest: answer_of_nonempty
        split: option.splits if_splits sum.splits completion.splits)

lemma handler_try_valid:
  assumes "body req = Some b" "get_prop b (utf16 ''question'') = Some (JStr question)"
    "question \<noteq> []" "get_prop b (utf16 ''gameId'') = Some g" "truthy (Some g)"
    "catanRulebookChunks e = Some allChunks"
  shows "handler_try e req =
           (if chunksFor (Some g) allChunks = [] then
              (case ToString g of
                 None \<Rightarrow> (Inl TypeError, [])
               | Some name \<Rightarrow>
                   (Inr (reply 404 (utf16 ''No rulebook found for game: '' @ name) []), []))
            else if retrieveChunks (toLowerCase e) question (chunksFor (Some g) allChunks) 5 = [] then
              (Inr (reply 200
                 (utf16 ''I couldn't find relevant information in the rulebook excerpts for that question. Please check the physical rulebook or try rephrasing your question.'')
                 []), [])
            else answer_from_model e question
                   (retrieveChunks (toLowerCase e) question (chunksFor (Some g) allChunks) 5))"
  using assms by (cases b) (simp_all add: handler_try_def Let_def template_def)

lemma handler_try_cases:
  "handler_try e req = (r, sent) \<Longrightarrow>
     (sent = [] \<and> (\<forall>res. r = Inr res \<longrightarrow> sources res = [] \<and> answer res \<noteq> []
                       \<and> status res \<in> {200, 400, 404, 500}))
     \<or> (\<exists>b question allChunks.
           body req = Some b \<and> get_prop b (utf16 ''question'') = Some (JStr question)
           \<and> catanRulebookChunks e = Some allChunks
           \<and> chunksFor (get_prop b (utf16 ''gameId'')) allChunks \<noteq> []
           \<and> retrieveChunks (toLowerCase e) question (chunksFor (get_prop b (utf16 ''gameId'')) allChunks) 5 \<noteq> []
           \<and> answer_from_model e question
                 (retrieveChunks (toLowerCase e) question (chunksFor (get_prop b (utf16 ''gameId'')) allChunks) 5) = (r, sent))"
  by (auto simp: handler_try_def reply_def Let_def template_def
        split: option.splits json.splits if_splits)


lemma set_retrieveChunks: "set (retrieveChunks lower question chunks topN) \<subseteq> set chunks"
proof -
  have "set (retrieveChunks lower question chunks topN)
          \<subseteq> set (sort_cmp (\<lambda>a b. scoreChunk lower question b - scoreChunk lower question a)
                   (filter (\<lambda>c. scoreChunk lower question c > 0) chunks))"
    unfolding retrieveChunks_eq by (rule set_take_subset)
  then show ?thesis by (auto simp: set_sort_cmp)
qed

lemma handler_post:
  "method req = (utf16 ''POST'') \<Longrightarrow> handler_try e req = (Inr res, sent) \<Longrightarrow> handler e req = (res, sent)"
  by (simp add: handler_def)

text \<open>
  Claim C10: every response of the handler, on every path (405, 400, 400, 500, 404, the
  200 of no relevant chunk, of the missing credential, of the failed model call and of
  success, and the 500 of an unexpected error), is a JSON object with a non-empty string
  \<open>answer\<close> and an array \<open>sources\<close>. The response type has the two fields; the answer is
  never the empty string, and the status is one of the five.
\<close>

theorem handler_answer_nonempty:
  "answer (fst (handler e req)) \<noteq> []
   \<and> status (fst (handler e req)) \<in> {200, 400, 404, 405, 500}"
proof (cases "method req \<noteq> (utf16 ''POST'')")
  case True
  then show ?thesis by (simp add: handler_def reply_def)
next
  case False
  obtain r sent where t: "handler_try e req = (r, sent)" by (cases "handler_try e req")
  show ?thesis
  proof (cases r)
    case (Inl x)
    then show ?thesis using False t by (simp add: handler_def reply_def)
  next
    case (Inr res)
    have h: "fst (handler e req) = res" using False t Inr by (simp add: handler_def)
    from handler_try_cases [OF t] have "answer res \<noteq> [] \<and> status res \<in> {200, 400, 404, 500}"
    proof
      assume "sent = [] \<and> (\<forall>res. r = Inr res \<longrightarrow> sources res = [] \<and> answer res \<noteq> []
                       \<and> status res \<in> {200, 400, 404, 500})"
      then show ?thesis using Inr by blast
    next
      assume "\<exists>b question allChunks.
           body req = Some b \<and> get_prop b (utf16 ''question'') = Some (JStr question)
           \<and> catanRulebookChunks e = Some allChunks
           \<and> chunksFor (get_prop b (utf16 ''gameId'')) allChunks \<noteq> []
           \<and> retrieveChunks (toLowerCase e) question (chunksFor (get_prop b (utf16 ''gameId'')) allChunks) 5 \<noteq> []
           \<and> answer_from_model e question
                 (retrieveChunks (toLowerCase e) question (chunksFor (get_prop b (utf16 ''gameId'')) allChunks) 5) = (r, sent)"
      then obtain question rel where "answer_from_model e question rel = (r, sent)" by blast
      from answer_from_model_cases [OF this] Inr show ?thesis
        by (auto simp: reply_def)
    qed
    then show ?thesis unfolding h by auto
  qed
qed


theorem handler_answer_nonempty_witness:
  "answer (fst (handler (rulebook (completes (utf16 '' ''))) (post (utf16 ''catan-base'') (utf16 ''How do I build a road?''))))
     \<noteq> []
   \<and> sources (fst (handler (rulebook (completes (utf16 '' ''))) (post (utf16 ''catan-base'') (utf16 ''How do I build a road?''))))
       = [(4, (utf16 ''Building Roads'')), (7, (utf16 ''Trading''))]"
proof -
  have "sources (fst (handler (rulebook (completes (utf16 '' ''))) (post (utf16 ''catan-base'') (utf16 ''How do I build a road?''))))
       = [(4, (utf16 ''Building Roads'')), (7, (utf16 ''Trading''))]"
    by code_simp
  with handler_answer_nonempty [of "rulebook (completes (utf16 '' ''))" "post (utf16 ''catan-base'') (utf16 ''How do I build a road?'')"]
  show ?thesis by blast
qed


section \<open>Game partitions\<close>

text \<open>
  Claim C2: for every question and queried \<open>gameId\<close>, every chunk that is scored, every
  chunk that retrieval returns, and every (page, section) pair in the sources of a
  response comes from a chunk of the loaded rulebook whose \<open>gameId\<close> is the queried one.
\<close>

theorem retrieval_within_partition:
  "(\<forall>item\<in>set (scoredChunks lower question (chunksFor g allChunks)).
       Some (JStr (gameId (chunk item))) = g)
   \<and> (\<forall>c\<in>set (retrieveChunks lower question (chunksFor g allChunks) topN). Some (JStr (gameId c)) = g)
   \<and> (\<forall>p s. (p, s) \<in> set (sources (fst (handler e req))) \<longrightarrow>
         (\<exists>b loaded c. body req = Some b \<and> catanRulebookChunks e = Some loaded
            \<and> c \<in> set loaded \<and> Some (JStr (gameId c)) = get_prop b (utf16 ''gameId'')
            \<and> page c = p \<and> section c = s))"
proof (intro conjI allI impI)
  show "\<forall>item\<in>set (scoredChunks lower question (chunksFor g allChunks)).
          Some (JStr (gameId (chunk item))) = g"
    by (auto simp: scoredChunks_def chunksFor_def)
next
  show "\<forall>c\<in>set (retrieveChunks lower question (chunksFor g allChunks) topN). Some (JStr (gameId c)) = g"
    using set_retrieveChunks [of lower question "chunksFor g allChunks" topN]
    by (auto simp: chunksFor_def)
next
  fix p s
  assume mem: "(p, s) \<in> set (sources (fst (handler e req)))"
  then have post: "method req = (utf16 ''POST'')"
    by (auto simp: handler_def reply_def split: if_splits)
  obtain r sent where t: "handler_try e req = (r, sent)" by (cases "handler_try e req")
  from mem post t obtain res where r: "r = Inr res" and mem': "(p, s) \<in> set (sources res)"
    by (cases r) (auto simp: handler_def reply_def)
  from handler_try_cases [OF t] r mem'
  obtain b q loaded where b: "body req = Some b" and l: "catanRulebookChunks e = Some loaded"
    and m: "answer_from_model e q
              (retrieveChunks (toLowerCase e) q (chunksFor (get_prop b (utf16 ''gameId'')) loaded) 5) = (r, sent)"
    by auto
  let ?rel = "retrieveChunks (toLowerCase e) q (chunksFor (get_prop b (utf16 ''gameId'')) loaded) 5"
  from answer_from_model_cases [OF m] r mem'
  have "(p, s) \<in> set (map (\<lambda>c. (page c, section c)) ?rel)"
    by (auto simp: reply_def)
  then obtain c where c: "c \<in> set ?rel" and ps: "page c = p" "section c = s" by auto
  from c set_retrieveChunks [of "toLowerCase e" q "chunksFor (get_prop b (utf16 ''gameId'')) loaded" 5]
  have "c \<in> set loaded \<and> Some (JStr (gameId c)) = get_prop b (utf16 ''gameId'')"
    by (auto simp: chunksFor_def)
  then show "\<exists>b loaded c. body req = Some b \<and> catanRulebookChunks e = Some loaded
            \<and> c \<in> set loaded \<and> Some (JStr (gameId c)) = get_prop b (utf16 ''gameId'')
            \<and> page c = p \<and> section c = s"
    using b l ps by blast
qed

theorem retrieval_within_partition_witness:
  "roads \<in> set (retrieveChunks asciiLower (utf16 ''How do I build a road?'')
                   (chunksFor (Some (JStr (utf16 ''catan-base''))) [trading, castle, roads]) 5)
   \<and> Some (JStr (gameId roads)) = Some (JStr (utf16 ''catan-base''))
   \<and> (4, (utf16 ''Building Roads''))
        \<in> set (sources (fst (handler (rulebook (completes (utf16 ''Roads cost one brick and one wood.'')))
                                (post (utf16 ''catan-base'') (utf16 ''How do I build a road?'')))))
   \<and> (\<exists>b loaded c. body (post (utf16 ''catan-base'') (utf16 ''How do I build a road?'')) = Some b
          \<and> catanRulebookChunks (rulebook (completes (utf16 ''Roads cost one brick and one wood.''))) = Some loaded
          \<and> c \<in> set loaded \<and> Some (JStr (gameId c)) = get_prop b (utf16 ''gameId'')
          \<and> page c = 4 \<and> section c = (utf16 ''Building Roads''))"
proof -
  let ?e = "rulebook (completes (utf16 ''Roads cost one brick and one wood.''))"
  let ?req = "post (utf16 ''catan-base'') (utf16 ''How do I build a road?'')"
  have m: "roads \<in> set (retrieveChunks asciiLower (utf16 ''How do I build a road?'')
                   (chunksFor (Some (JStr (utf16 ''catan-base''))) [trading, castle, roads]) 5)"
    by code_simp
  have s: "(4, (utf16 ''Building Roads'')) \<in> set (sources (fst (handler ?e ?req)))"
    by code_simp
  note t = retrieval_within_partition [of asciiLower "(utf16 ''How do I build a road?'')" "Some (JStr (utf16 ''catan-base''))"
      "[trading, castle, roads]" 5 ?e ?req]
  from t m have "Some (JStr (gameId roads)) = Some (JStr (utf16 ''catan-base''))" by blast
  moreover from t s have "\<exists>b loaded c. body ?req = Some b
          \<and> catanRulebookChunks ?e = Some loaded
          \<and> c \<in> set loaded \<and> Some (JStr (gameId c)) = get_prop b (utf16 ''gameId'')
          \<and> page c = 4 \<and> section c = (utf16 ''Building Roads'')" by blast
  ultimately show ?thesis using m s by blast
qed

section \<open>No grounding, no model call\<close>

text \<open>
  Claim C5: when the \<open>gameId\<close> of a request selects no chunk, or its question retrieves
  none, the response has no sources and the model service is not called (whatever
  else the request holds); for a well-formed request the response is the fixed
  fallback: with no chunk for the game, status 404 and the no-rulebook message naming
  the game (for a \<open>gameId\<close> that is a string, that string) or, where the \<open>gameId\<close> cannot
  be printed, status 500 and the could-not-process message; with no relevant chunk,
  status 200 and the not-found message.
\<close>

theorem no_grounding_no_model_call:
  "(\<forall>b loaded. body req = Some b \<and> catanRulebookChunks e = Some loaded
       \<and> (chunksFor (get_prop b (utf16 ''gameId'')) loaded = []
            \<or> (\<forall>q. get_prop b (utf16 ''question'') = Some (JStr q) \<longrightarrow>
                  retrieveChunks (toLowerCase e) q (chunksFor (get_prop b (utf16 ''gameId'')) loaded) 5
                    = []))
       \<longrightarrow> sources (fst (handler e req)) = [] \<and> snd (handler e req) = [])
   \<and> (\<forall>b question g loaded.
         method req = utf16 ''POST'' \<and> body req = Some b
         \<and> get_prop b (utf16 ''question'') = Some (JStr question) \<and> question \<noteq> []
         \<and> get_prop b (utf16 ''gameId'') = Some g \<and> truthy (Some g)
         \<and> catanRulebookChunks e = Some loaded
         \<longrightarrow> (chunksFor (Some g) loaded = [] \<longrightarrow>
                handler e req =
                  (case ToString g of
                     Some name \<Rightarrow> (reply 404 (utf16 ''No rulebook found for game: '' @ name) [], [])
                   | None \<Rightarrow> (reply 500 (utf16 ''I had trouble processing your question. Please try again.'') [], []))
                \<and> (\<forall>name. g = JStr name \<longrightarrow>
                      handler e req
                        = (reply 404 (utf16 ''No rulebook found for game: '' @ name) [], [])))
             \<and> (chunksFor (Some g) loaded \<noteq> []
                  \<and> retrieveChunks (toLowerCase e) question (chunksFor (Some g) loaded) 5 = [] \<longrightarrow>
                handler e req = (reply 200 (utf16 ''I couldn't find relevant information in the rulebook excerpts for that question. Please check the physical rulebook or try rephrasing your question.'') [], [])))"
proof (intro conjI allI impI)
  fix b loaded
  assume a: "body req = Some b \<and> catanRulebookChunks e = Some loaded
       \<and> (chunksFor (get_prop b (utf16 ''gameId'')) loaded = []
            \<or> (\<forall>q. get_prop b (utf16 ''question'') = Some (JStr q) \<longrightarrow>
                  retrieveChunks (toLowerCase e) q (chunksFor (get_prop b (utf16 ''gameId'')) loaded) 5
                    = []))"
  obtain r sent where t: "handler_try e req = (r, sent)" by (cases "handler_try e req")
  from handler_try_cases [OF t] a
  have quiet: "sent = [] \<and> (\<forall>res. r = Inr res \<longrightarrow> sources res = [])"
    by auto
  have "sources (fst (handler e req)) = [] \<and> snd (handler e req) = []"
    using quiet t by (cases r) (auto simp: handler_def reply_def)
  then show "sources (fst (handler e req)) = []" and "snd (handler e req) = []" by simp_all
next
  fix b question g loaded
  assume v: "method req = utf16 ''POST'' \<and> body req = Some b
         \<and> get_prop b (utf16 ''question'') = Some (JStr question) \<and> question \<noteq> []
         \<and> get_prop b (utf16 ''gameId'') = Some g \<and> truthy (Some g)
         \<and> catanRulebookChunks e = Some loaded"
  then have t: "handler_try e req =
           (if chunksFor (Some g) loaded = [] then
              (case ToString g of
                 None \<Rightarrow> (Inl TypeError, [])
               | Some name \<Rightarrow>
                   (Inr (reply 404 (utf16 ''No rulebook found for game: '' @ name) []), []))
            else if retrieveChunks (toLowerCase e) question (chunksFor (Some g) loaded) 5 = [] then
              (Inr (reply 200 (utf16 ''I couldn't find relevant information in the rulebook excerpts for that question. Please check the physical rulebook or try rephrasing your question.'') []), [])
            else answer_from_model e question
                   (retrieveChunks (toLowerCase e) question (chunksFor (Some g) loaded) 5))"
    using handler_try_valid [of req b question g e loaded] by blast
  from v have post: "method req = utf16 ''POST''" by blast
  {
    assume none: "chunksFor (Some g) loaded = []"
    with t have t': "handler_try e req =
              (case ToString g of
                 None \<Rightarrow> (Inl TypeError, [])
               | Some name \<Rightarrow>
                   (Inr (reply 404 (utf16 ''No rulebook found for game: '' @ name) []), []))"
      by simp
    show c: "handler e req =
                  (case ToString g of
                     Some name \<Rightarrow> (reply 404 (utf16 ''No rulebook found for game: '' @ name) [], [])
                   | None \<Rightarrow> (reply 500 (utf16 ''I had trouble processing your question. Please try again.'') [], []))"
      using post t' by (cases "ToString g") (simp_all add: handler_def)
    fix name
    assume "g = JStr name"
    then show "handler e req
                 = (reply 404 (utf16 ''No rulebook found for game: '' @ name) [], [])"
      using c by simp
  }
  {
    assume "chunksFor (Some g) loaded \<noteq> []
            \<and> retrieveChunks (toLowerCase e) question (chunksFor (Some g) loaded) 5 = []"
    with t have "handler_try e req = (Inr (reply 200 (utf16 ''I couldn't find relevant information in the rulebook excerpts for that question. Please check the physical rulebook or try rephrasing your question.'') []), [])"
      by simp
    then show "handler e req = (reply 200 (utf16 ''I couldn't find relevant information in the rulebook excerpts for that question. Please check the physical rulebook or try rephrasing your question.'') [], [])"
      by (rule handler_post [OF post])
  }
qed

theorem no_grounding_no_model_call_witness:
  "handler (rulebook (completes (utf16 ''Yes.''))) (post (utf16 ''unknown-game'') (utf16 ''How do I build a road?''))
     = (reply 404 (utf16 ''No rulebook found for game: unknown-game'') [], [])
   \<and> handler (rulebook (completes (utf16 ''Yes.''))) (post (utf16 ''catan-base'') (utf16 ''zzz''))
     = (reply 200 (utf16 ''I couldn't find relevant information in the rulebook excerpts for that question. Please check the physical rulebook or try rephrasing your question.'') [], [])"
proof -
  let ?e = "rulebook (completes (utf16 ''Yes.''))"
  let ?all = "[trading, castle, roads]"
  have e: "catanRulebookChunks ?e = Some ?all" by (simp add: rulebook_def)
  have none: "chunksFor (Some (JStr (utf16 ''unknown-game''))) ?all = []" by code_simp
  have some: "chunksFor (Some (JStr (utf16 ''catan-base''))) ?all \<noteq> []" by code_simp
  have miss: "retrieveChunks (toLowerCase ?e) (utf16 ''zzz'')
                (chunksFor (Some (JStr (utf16 ''catan-base''))) ?all) 5 = []"
    by code_simp
  have v: "method (post game q) = utf16 ''POST''"
    "body (post game q) = Some (JObj [(utf16 ''gameId'', JStr game), (utf16 ''question'', JStr q)])"
    "get_prop (JObj [(utf16 ''gameId'', JStr game), (utf16 ''question'', JStr q)]) (utf16 ''question'')
       = Some (JStr q)"
    "get_prop (JObj [(utf16 ''gameId'', JStr game), (utf16 ''question'', JStr q)]) (utf16 ''gameId'')
       = Some (JStr game)"
    for game q
    by (simp_all add: post_def)
  have "handler ?e (post (utf16 ''unknown-game'') (utf16 ''How do I build a road?''))
          = (reply 404 (utf16 ''No rulebook found for game: '' @ utf16 ''unknown-game'') [], [])"
    using no_grounding_no_model_call [of "post (utf16 ''unknown-game'') (utf16 ''How do I build a road?'')" ?e]
      v [of "utf16 ''unknown-game''" "utf16 ''How do I build a road?''"] e none
    by (elim conjE allE [where x = "JObj [(utf16 ''gameId'', JStr (utf16 ''unknown-game'')),
                                          (utf16 ''question'', JStr (utf16 ''How do I build a road?''))]"]
          allE [where x = "utf16 ''How do I build a road?''"]
          allE [where x = "JStr (utf16 ''unknown-game'')"]
          allE [where x = "?all"] allE [where x = "utf16 ''unknown-game''"]) simp
  moreover have "utf16 ''No rulebook found for game: '' @ utf16 ''unknown-game''
                   = utf16 ''No rulebook found for game: unknown-game''"
    by (simp add: utf16_def)
  moreover have "handler ?e (post (utf16 ''catan-base'') (utf16 ''zzz'')) = (reply 200 (utf16 ''I couldn't find relevant information in the rulebook excerpts for that question. Please check the physical rulebook or try rephrasing your question.'') [], [])"
    using no_grounding_no_model_call [of "post (utf16 ''catan-base'') (utf16 ''zzz'')" ?e]
      v [of "utf16 ''catan-base''" "utf16 ''zzz''"] e some miss
    by (elim conjE allE [where x = "JObj [(utf16 ''gameId'', JStr (utf16 ''catan-base'')),
                                          (utf16 ''question'', JStr (utf16 ''zzz''))]"]
          allE [where x = "utf16 ''zzz''"] allE [where x = "JStr (utf16 ''catan-base'')"]
          allE [where x = "?all"]) simp
  ultimately show ?thesis by simp
qed

text \<open>
  A \<open>gameId\<close> that cannot be printed: the object has a member \<open>toString\<close>, the template
  literal of the 404 message throws, and the outer \<open>catch\<close> answers.
\<close>

lemma handler_unprintable_gameId:
  "handler (rulebook (completes (utf16 ''Yes.'')))
     \<lparr>method = utf16 ''POST'',
      body = Some (JObj [(utf16 ''gameId'', JObj [(utf16 ''toString'', JStr (utf16 ''x''))]),
                         (utf16 ''question'', JStr (utf16 ''How do I build a road?''))])\<rparr>
     = (reply 500 (utf16 ''I had trouble processing your question. Please try again.'') [], [])"
  by code_simp

section \<open>Failures of the model service\<close>

lemma answer_from_model_no_key:
  "OPENAI_API_KEY e = None \<or> OPENAI_API_KEY e = Some [] \<Longrightarrow>
     answer_from_model e question rel = (Inr (reply 200 (utf16 ''The rules engine is currently unavailable. Please check your connection or try again later.'') []), [])"
  by (auto simp: answer_from_model_def)

lemma answer_from_model_failure:
  "OPENAI_API_KEY e = Some apiKey \<Longrightarrow> apiKey \<noteq> [] \<Longrightarrow>
   openai e (build_request apiKey question rel) = FetchRejected
     \<or> (\<exists>code. openai e (build_request apiKey question rel) = NotOk code)
     \<or> openai e (build_request apiKey question rel) = NotJson \<Longrightarrow>
     answer_from_model e question rel
       = (Inr (reply 200 (utf16 ''I had trouble reaching the rules engine. Please check your connection or try again.'') []), [build_request apiKey question rel])"
  by (auto simp: answer_from_model_def Let_def)

lemma answer_from_model_parsed:
  "OPENAI_API_KEY e = Some apiKey \<Longrightarrow> apiKey \<noteq> [] \<Longrightarrow>
   openai e (build_request apiKey question rel) = Parsed r \<Longrightarrow>
     answer_from_model e question rel
       = (case answer_of r of
            Inl x \<Rightarrow> (Inl x, [build_request apiKey question rel])
          | Inr a \<Rightarrow> (Inr (reply 200 a (map (\<lambda>c. (page c, section c)) rel)),
                      [build_request apiKey question rel]))"
  by (simp add: answer_from_model_def Let_def)

text \<open>What line 171 makes of a parsed body, by the shape of the body.\<close>

lemma answer_of_first_completion:
  assumes "get_prop r (utf16 ''choices'') = Some (JArr (c # rest))"
    and "get_prop c (utf16 ''message'') = Some m"
    and "get_prop m (utf16 ''content'') = Some (JStr s)"
  shows "answer_of r = Inr (if trim s = [] then (utf16 ''I couldn't generate an answer. Please try again.'') else trim s)"
proof -
  obtain kvs where r: "r = JObj kvs" using assms(1) by (cases r) simp_all
  obtain cvs where c: "c = JObj cvs" using assms(2) by (cases c) simp_all
  obtain mvs where m: "m = JObj mvs" using assms(3) by (cases m) simp_all
  show ?thesis using assms unfolding r c m by (simp add: answer_of_def)
qed

lemma answer_of_no_completion:
  assumes "r \<noteq> JNull"
    and "get_prop r (utf16 ''choices'') = None \<or> get_prop r (utf16 ''choices'') = Some JNull
         \<or> get_prop r (utf16 ''choices'') = Some (JArr [])"
  shows "answer_of r = Inr (utf16 ''I couldn't generate an answer. Please try again.'')"
  using assms by (auto simp: answer_of_def)

lemma answer_of_null: "answer_of JNull = Inl TypeError"
  by (simp add: answer_of_def)

lemma answer_of_bad_content:
  assumes "get_prop r (utf16 ''choices'') = Some (JArr (c # rest))"
    and "get_prop c (utf16 ''message'') = Some m"
    and "get_prop m (utf16 ''content'') = Some v"
    and "v \<noteq> JNull" and "\<forall>s. v \<noteq> JStr s"
  shows "answer_of r = Inl TypeError"
proof -
  obtain kvs where r: "r = JObj kvs" using assms(1) by (cases r) simp_all
  obtain cvs where c: "c = JObj cvs" using assms(2) by (cases c) simp_all
  obtain mvs where m: "m = JObj mvs" using assms(3) by (cases m) simp_all
  show ?thesis using assms unfolding r c m by (cases v) (simp_all add: answer_of_def)
qed

text \<open>
  Claim C6 says that every failure of the model service, a malformed response among
  them, yields a fixed degraded-service message with empty sources. A response that
  parses as JSON and carries no completion is not treated so: the handler answers
  with its fixed could-not-generate text and keeps the sources of the retrieved chunks.
\<close>

theorem malformed_completion_counterexample:
  "fst (handler (rulebook (replies (Parsed (JObj [])))) (post (utf16 ''catan-base'') (utf16 ''How do I build a road?'')))
     = reply 200 (utf16 ''I couldn't generate an answer. Please try again.'')
         [(4, utf16 ''Building Roads''), (7, utf16 ''Trading'')]"
  by code_simp

text \<open>
  Claim C6, amended: for a request that reaches the model stage, a missing or empty API
  key, a rejected \<open>fetch\<close>, a non-success status and a body that does not parse as JSON
  each yield a fixed degraded-service message (one for the key, one for the other
  three) with empty sources and status 200, and nothing is thrown, inside the handler's
  \<open>try\<close> or past it. A body that parses is read by line 171: when its \<open>choices\<close> is an
  array whose first element has a \<open>message\<close> with a string \<open>content\<close>, the answer is the
  trimmed content, or the fixed could-not-generate text when the trimmed content is
  empty; when the body is not \<open>null\<close> and has no \<open>choices\<close>, or \<open>null\<close> or an empty array
  for it, the answer is the fixed could-not-generate text; both come with the sources
  of the retrieved chunks and status 200. When the body is \<open>null\<close>, or the content is
  there and is neither \<open>null\<close> nor a string, reading it throws and the response is the
  fixed could-not-process message with empty sources and status 500.
\<close>

theorem model_failure_degrades:
  assumes "method req = utf16 ''POST''" and "body req = Some b"
    and "get_prop b (utf16 ''question'') = Some (JStr question)" and "question \<noteq> []"
    and "get_prop b (utf16 ''gameId'') = Some g" and "truthy (Some g)"
    and "catanRulebookChunks e = Some loaded"
    and "relevantChunks = retrieveChunks (toLowerCase e) question (chunksFor (Some g) loaded) 5"
    and "relevantChunks \<noteq> []"
  shows "(OPENAI_API_KEY e = None \<or> OPENAI_API_KEY e = Some [] \<longrightarrow>
            handler_try e req = (Inr (reply 200 (utf16 ''The rules engine is currently unavailable. Please check your connection or try again later.'') []), [])
            \<and> handler e req = (reply 200 (utf16 ''The rules engine is currently unavailable. Please check your connection or try again later.'') [], []))
       \<and> (\<forall>apiKey. OPENAI_API_KEY e = Some apiKey \<and> apiKey \<noteq> []
             \<and> (openai e (build_request apiKey question relevantChunks) = FetchRejected
                  \<or> (\<exists>code. openai e (build_request apiKey question relevantChunks) = NotOk code)
                  \<or> openai e (build_request apiKey question relevantChunks) = NotJson)
            \<longrightarrow> handler_try e req
                  = (Inr (reply 200 (utf16 ''I had trouble reaching the rules engine. Please check your connection or try again.'') []), [build_request apiKey question relevantChunks])
                \<and> handler e req
                  = (reply 200 (utf16 ''I had trouble reaching the rules engine. Please check your connection or try again.'') [], [build_request apiKey question relevantChunks]))
       \<and> (\<forall>apiKey r c rest m s. OPENAI_API_KEY e = Some apiKey \<and> apiKey \<noteq> []
             \<and> openai e (build_request apiKey question relevantChunks) = Parsed r
             \<and> get_prop r (utf16 ''choices'') = Some (JArr (c # rest))
             \<and> get_prop c (utf16 ''message'') = Some m
             \<and> get_prop m (utf16 ''content'') = Some (JStr s)
            \<longrightarrow> handler e req
                  = (reply 200 (if trim s = [] then (utf16 ''I couldn't generate an answer. Please try again.'') else trim s)
                       (map (\<lambda>c. (page c, section c)) relevantChunks),
                     [build_request apiKey question relevantChunks]))
       \<and> (\<forall>apiKey r. OPENAI_API_KEY e = Some apiKey \<and> apiKey \<noteq> []
             \<and> openai e (build_request apiKey question relevantChunks) = Parsed r
             \<and> r \<noteq> JNull
             \<and> (get_prop r (utf16 ''choices'') = None
                  \<or> get_prop r (utf16 ''choices'') = Some JNull
                  \<or> get_prop r (utf16 ''choices'') = Some (JArr []))
            \<longrightarrow> handler e req
                  = (reply 200 (utf16 ''I couldn't generate an answer. Please try again.'') (map (\<lambda>c. (page c, section c)) relevantChunks),
                     [build_request apiKey question relevantChunks]))
       \<and> (\<forall>apiKey. OPENAI_API_KEY e = Some apiKey \<and> apiKey \<noteq> []
             \<and> openai e (build_request apiKey question relevantChunks) = Parsed JNull
            \<longrightarrow> handler e req
                  = (reply 500 (utf16 ''I had trouble processing your question. Please try again.'') [], [build_request apiKey question relevantChunks]))
       \<and> (\<forall>apiKey r c rest m v. OPENAI_API_KEY e = Some apiKey \<and> apiKey \<noteq> []
             \<and> openai e (build_request apiKey question relevantChunks) = Parsed r
             \<and> get_prop r (utf16 ''choices'') = Some (JArr (c # rest))
             \<and> get_prop c (utf16 ''message'') = Some m
             \<and> get_prop m (utf16 ''content'') = Some v
             \<and> v \<noteq> JNull \<and> (\<forall>s. v \<noteq> JStr s)
            \<longrightarrow> handler e req
                  = (reply 500 (utf16 ''I had trouble processing your question. Please try again.'') [], [build_request apiKey question relevantChunks]))"
proof -
  have ne: "chunksFor (Some g) loaded \<noteq> []"
  proof
    assume "chunksFor (Some g) loaded = []"
    then have "relevantChunks = []"
      using assms(8) set_retrieveChunks [of "toLowerCase e" question "chunksFor (Some g) loaded" 5]
      by simp
    then show False using assms(9) by simp
  qed
  have t: "handler_try e req = answer_from_model e question relevantChunks"
    using handler_try_valid [OF assms(2,3,4,5,6,7)] ne assms(8,9) by simp
  have thrown: "handler e req = (reply 500 (utf16 ''I had trouble processing your question. Please try again.'') [], sent)"
    if "handler_try e req = (Inl x, sent)" for x sent
    using that assms(1) by (simp add: handler_def)
  show ?thesis
  proof (intro conjI allI impI)
    assume k: "OPENAI_API_KEY e = None \<or> OPENAI_API_KEY e = Some []"
    show a: "handler_try e req = (Inr (reply 200 (utf16 ''The rules engine is currently unavailable. Please check your connection or try again later.'') []), [])"
      unfolding t using k by (rule answer_from_model_no_key)
    show "handler e req = (reply 200 (utf16 ''The rules engine is currently unavailable. Please check your connection or try again later.'') [], [])"
      using assms(1) a by (rule handler_post)
  next
    fix apiKey
    assume f: "OPENAI_API_KEY e = Some apiKey \<and> apiKey \<noteq> []
             \<and> (openai e (build_request apiKey question relevantChunks) = FetchRejected
                  \<or> (\<exists>code. openai e (build_request apiKey question relevantChunks) = NotOk code)
                  \<or> openai e (build_request apiKey question relevantChunks) = NotJson)"
    show a: "handler_try e req
               = (Inr (reply 200 (utf16 ''I had trouble reaching the rules engine. Please check your connection or try again.'') []), [build_request apiKey question relevantChunks])"
      unfolding t using f by (intro answer_from_model_failure) blast+
    show "handler e req = (reply 200 (utf16 ''I had trouble reaching the rules engine. Please check your connection or try again.'') [], [build_request apiKey question relevantChunks])"
      using assms(1) a by (rule handler_post)
  next
    fix apiKey r c rest m s
    assume p: "OPENAI_API_KEY e = Some apiKey \<and> apiKey \<noteq> []
             \<and> openai e (build_request apiKey question relevantChunks) = Parsed r
             \<and> get_prop r (utf16 ''choices'') = Some (JArr (c # rest))
             \<and> get_prop c (utf16 ''message'') = Some m
             \<and> get_prop m (utf16 ''content'') = Some (JStr s)"
    then have "answer_of r = Inr (if trim s = [] then (utf16 ''I couldn't generate an answer. Please try again.'') else trim s)"
      using answer_of_first_completion [of r c rest m s] by blast
    then have "handler_try e req
                 = (Inr (reply 200 (if trim s = [] then (utf16 ''I couldn't generate an answer. Please try again.'') else trim s)
                           (map (\<lambda>c. (page c, section c)) relevantChunks)),
                    [build_request apiKey question relevantChunks])"
      unfolding t using p answer_from_model_parsed [of e apiKey question relevantChunks r]
      by simp
    then show "handler e req
                 = (reply 200 (if trim s = [] then (utf16 ''I couldn't generate an answer. Please try again.'') else trim s)
                       (map (\<lambda>c. (page c, section c)) relevantChunks),
                    [build_request apiKey question relevantChunks])"
      by (rule handler_post [OF assms(1)])
  next
    fix apiKey r
    assume p: "OPENAI_API_KEY e = Some apiKey \<and> apiKey \<noteq> []
             \<and> openai e (build_request apiKey question relevantChunks) = Parsed r
             \<and> r \<noteq> JNull
             \<and> (get_prop r (utf16 ''choices'') = None
                  \<or> get_prop r (utf16 ''choices'') = Some JNull
                  \<or> get_prop r (utf16 ''choices'') = Some (JArr []))"
    then have "answer_of r = Inr (utf16 ''I couldn't generate an answer. Please try again.'')"
      using answer_of_no_completion [of r] by blast
    then have "handler_try e req
                 = (Inr (reply 200 (utf16 ''I couldn't generate an answer. Please try again.'') (map (\<lambda>c. (page c, section c)) relevantChunks)),
                    [build_request apiKey question relevantChunks])"
      unfolding t using p answer_from_model_parsed [of e apiKey question relevantChunks r]
      by simp
    then show "handler e req
                 = (reply 200 (utf16 ''I couldn't generate an answer. Please try again.'') (map (\<lambda>c. (page c, section c)) relevantChunks),
                    [build_request apiKey question relevantChunks])"
      by (rule handler_post [OF assms(1)])
  next
    fix apiKey
    assume p: "OPENAI_API_KEY e = Some apiKey \<and> apiKey \<noteq> []
             \<and> openai e (build_request apiKey question relevantChunks) = Parsed JNull"
    then have "handler_try e req = (Inl TypeError, [build_request apiKey question relevantChunks])"
      unfolding t using answer_from_model_parsed [of e apiKey question relevantChunks JNull]
      by (simp add: answer_of_null)
    then show "handler e req = (reply 500 (utf16 ''I had trouble processing your question. Please try again.'') [], [build_request apiKey question relevantChunks])"
      by (rule thrown)
  next
    fix apiKey r c rest m v
    assume p: "OPENAI_API_KEY e = Some apiKey \<and> apiKey \<noteq> []
             \<and> openai e (build_request apiKey question relevantChunks) = Parsed r
             \<and> get_prop r (utf16 ''choices'') = Some (JArr (c # rest))
             \<and> get_prop c (utf16 ''message'') = Some m
             \<and> get_prop m (utf16 ''content'') = Some v
             \<and> v \<noteq> JNull \<and> (\<forall>s. v \<noteq> JStr s)"
    then have "answer_of r = Inl TypeError"
      using answer_of_bad_content [of r c rest m v] by blast
    then have "handler_try e req = (Inl TypeError, [build_request apiKey question relevantChunks])"
      unfolding t using p answer_from_model_parsed [of e apiKey question relevantChunks r]
      by simp
    then show "handler e req = (reply 500 (utf16 ''I had trouble processing your question. Please try again.'') [], [build_request apiKey question relevantChunks])"
      by (rule thrown)
  qed
qed

theorem model_failure_degrades_witness:
  "handler (rulebook (replies (NotOk 500))) (post (utf16 ''catan-base'') (utf16 ''How do I build a road?''))
     = (reply 200 (utf16 ''I had trouble reaching the rules engine. Please check your connection or try again.'') [],
        [build_request (utf16 ''sk-test'') (utf16 ''How do I build a road?'') [roads, trading]])
   \<and> handler (rulebook (completes (utf16 '' Roads cost one brick and one wood. '')))
        (post (utf16 ''catan-base'') (utf16 ''How do I build a road?''))
     = (reply 200 (utf16 ''Roads cost one brick and one wood.'')
          [(4, utf16 ''Building Roads''), (7, utf16 ''Trading'')],
        [build_request (utf16 ''sk-test'') (utf16 ''How do I build a road?'') [roads, trading]])"
proof -
  let ?q = "utf16 ''How do I build a road?''"
  let ?req = "post (utf16 ''catan-base'') ?q"
  let ?b = "JObj [(utf16 ''gameId'', JStr (utf16 ''catan-base'')), (utf16 ''question'', JStr ?q)]"
  let ?rq = "build_request (utf16 ''sk-test'') ?q [roads, trading]"
  let ?m = "JObj [(utf16 ''content'', JStr (utf16 '' Roads cost one brick and one wood. ''))]"
  let ?c = "JObj [(utf16 ''message'', ?m)]"
  let ?r = "JObj [(utf16 ''choices'', JArr [?c])]"
  have rel: "[roads, trading] = retrieveChunks (toLowerCase (rulebook service)) ?q
               (chunksFor (Some (JStr (utf16 ''catan-base''))) [trading, castle, roads]) 5"
    for service
    unfolding rulebook_def by code_simp
  have v: "method ?req = utf16 ''POST''" "body ?req = Some ?b"
    "get_prop ?b (utf16 ''question'') = Some (JStr ?q)"
    "?q \<noteq> []"
    "get_prop ?b (utf16 ''gameId'') = Some (JStr (utf16 ''catan-base''))"
    "truthy (Some (JStr (utf16 ''catan-base'')))"
    by (simp_all add: post_def)
  have l: "catanRulebookChunks (rulebook service) = Some [trading, castle, roads]"
    "OPENAI_API_KEY (rulebook service) = Some (utf16 ''sk-test'')"
    "openai (rulebook service) = service" for service
    by (simp_all add: rulebook_def)
  have ne: "[roads, trading] \<noteq> []" "utf16 ''sk-test'' \<noteq> []" by simp_all
  have "openai (rulebook (replies (NotOk 500))) ?rq = NotOk 500"
    by (simp add: l replies_def)
  with model_failure_degrades [OF v l(1) rel ne(1), of "replies (NotOk 500)"] l(2) ne(2)
  have 1: "handler (rulebook (replies (NotOk 500))) ?req = (reply 200 (utf16 ''I had trouble reaching the rules engine. Please check your connection or try again.'') [], [?rq])"
    by blast
  let ?service = "completes (utf16 '' Roads cost one brick and one wood. '')"
  have p: "openai (rulebook ?service) ?rq = Parsed ?r"
    by (simp add: l completes_def replies_def)
  have s: "get_prop ?r (utf16 ''choices'') = Some (JArr (?c # []))"
    "get_prop ?c (utf16 ''message'') = Some ?m"
    "get_prop ?m (utf16 ''content'') = Some (JStr (utf16 '' Roads cost one brick and one wood. ''))"
    by simp_all
  have tr: "trim (utf16 '' Roads cost one brick and one wood. '')
              = utf16 ''Roads cost one brick and one wood.''"
    by code_simp
  have src: "map (\<lambda>c. (page c, section c)) [roads, trading]
               = [(4, utf16 ''Building Roads''), (7, utf16 ''Trading'')]"
    by (simp add: roads_def trading_def)
  from model_failure_degrades [OF v l(1) rel ne(1), of ?service] l(2) ne(2) p s
  have "handler (rulebook ?service) ?req
          = (reply 200 (if trim (utf16 '' Roads cost one brick and one wood. '') = [] then (utf16 ''I couldn't generate an answer. Please try again.'')
                        else trim (utf16 '' Roads cost one brick and one wood. ''))
               (map (\<lambda>c. (page c, section c)) [roads, trading]), [?rq])"
    by blast
  then have 2: "handler (rulebook ?service) ?req
          = (reply 200 (utf16 ''Roads cost one brick and one wood.'')
               [(4, utf16 ''Building Roads''), (7, utf16 ''Trading'')], [?rq])"
    unfolding tr src by simp
  show ?thesis using 1 2 by blast
qed

section \<open>The text shown for an answer\<close>

lemma fixed_texts_survive:
  "limitedAnswer (utf16 ''I couldn't find a matching rule in the rulebook excerpts.'') \<noteq> []"
  "limitedAnswer (utf16 ''I couldn't reach the rules engine. Please try again.'') \<noteq> []"
  by code_simp+

text \<open>
  Whatever the server, the text shown is empty exactly when the client is given a
  non-empty answer that consists of sentence-ending punctuation and white space only.
\<close>

lemma assistantText_empty_iff:
  "assistantText server query = [] \<longleftrightarrow>
     (\<exists>a srcs. askRulebook server query (utf16 ''catan-base'') = Inr (a, srcs) \<and> a \<noteq> []
        \<and> (\<forall>c\<in>set a. sentenceEnd c \<or> whitespace c))"
proof (cases "askRulebook server query (utf16 ''catan-base'')")
  case (Inl x)
  then show ?thesis by (simp add: assistantText_def)
next
  case (Inr p)
  obtain a srcs where p: "p = (a, srcs)" by (cases p)
  show ?thesis
  proof (cases "a = []")
    case True
    then show ?thesis using Inr p by (simp add: assistantText_def fixed_texts_survive)
  next
    case False
    then show ?thesis using Inr p
      by (simp add: assistantText_def limitedAnswer_Nil_iff allSentences_Nil_iff)
  qed
qed

text \<open>
  Claim C1: the final answer shown for a question, after the endpoint and the client's
  three-sentence safety net, is never the empty string; when no sentence survives the
  split a static string stands in. The endpoint replaces an empty completion by a fixed
  text and the client replaces an empty answer by one, both before the split; after it
  nothing stands in. For a completion \<open>...\<close> the endpoint answers \<open>...\<close> with status 200,
  no sentence survives, and the entry added to the transcript is the empty string.
\<close>

theorem final_text_empty:
  "fst (handler (rulebook (completes (utf16 ''...'')))
          (post (utf16 ''catan-base'') (utf16 ''How do I build a road?'')))
     = reply 200 (utf16 ''...'') [(4, utf16 ''Building Roads''), (7, utf16 ''Trading'')]
   \<and> limitedSentences (utf16 ''...'') = []
   \<and> assistantText (endpoint (rulebook (completes (utf16 ''...''))))
         (utf16 ''How do I build a road?'') = []"
  by code_simp

section \<open>The voice session: network errors\<close>

lemma run_Nil: "run server s [] = s"
  by (simp add: run_def)

lemma run_Cons: "run server s (ev # evs) = run server (step server s ev) evs"
  by (simp add: run_def)

lemma run_append: "run server s (xs @ ys) = run server (run server s xs) ys"
  by (simp add: run_def)

lemma timeout_Started:
  "isHolding (timeout t Started s) = isHolding s"
  "retryCount (timeout t Started s) = retryCount s"
  by (cases t; simp add: timeout_def restart_callback_def retry_callback_def clear_callback_def Let_def)+

lemma run_timeouts:
  "\<forall>ev\<in>set q. \<exists>t. ev = Timeout t Started \<Longrightarrow>
     isHolding (run server s q) = isHolding s \<and> retryCount (run server s q) = retryCount s"
  by (induction q arbitrary: s) (auto simp: run_Nil run_Cons timeout_Started)

lemma startListening_Started:
  "speechSupported s \<Longrightarrow> recognition s \<Longrightarrow>
     isHolding (startListening Started s) \<and> retryCount (startListening Started s) = 0"
  by (simp add: startListening_def Let_def)

lemma onerror_network_retry:
  "isHolding s \<Longrightarrow> retryCount s < maxRetries \<Longrightarrow>
     isHolding (onerror (utf16 ''network'') s)
     \<and> retryCount (onerror (utf16 ''network'') s) = retryCount s + 1
     \<and> error (onerror (utf16 ''network'') s) = Some (retryMessage (retryCount s + 1))
     \<and> timers (onerror (utf16 ''network'') s) = timers s @ [(500, Retry), (2000, ClearRetryMessage)]"
  by (simp add: onerror_def Let_def)

lemma onerror_network_fatal:
  "\<not> (isHolding s \<and> retryCount s < maxRetries) \<Longrightarrow>
     \<not> isHolding (onerror (utf16 ''network'') s)
     \<and> retryCount (onerror (utf16 ''network'') s) = 0
     \<and> error (onerror (utf16 ''network'') s) = Some guidance
     \<and> timers (onerror (utf16 ''network'') s) = timers s"
  by (simp add: onerror_def Let_def)


text \<open>
  Claim C7 says that after three consecutive \<open>network\<close> errors following a fresh press
  the session is in the fatal error state, \<open>isHolding\<close> cleared and the guidance message
  shown. With \<open>maxRetries = 3\<close> the test \<open>retryCount < maxRetries\<close> still holds at the third
  error (the count is 2): the session keeps holding, shows \<open>retry 3/3\<close> and schedules its
  third retry.
\<close>

theorem network_retries_counterexample:
  "isHolding (run (endpoint (rulebook (completes (utf16 ''Yes.'')))) mounted
                [Press Started, OnError (utf16 ''network''), OnError (utf16 ''network''), OnError (utf16 ''network'')])
   \<and> error (run (endpoint (rulebook (completes (utf16 ''Yes.'')))) mounted
                [Press Started, OnError (utf16 ''network''), OnError (utf16 ''network''), OnError (utf16 ''network'')])
       = Some (utf16 ''Connection issue (retry 3/3)...'')
   \<and> timers (run (endpoint (rulebook (completes (utf16 ''Yes.'')))) mounted
                [Press Started, OnError (utf16 ''network''), OnError (utf16 ''network''), OnError (utf16 ''network'')])
       = [(500, Retry), (2000, ClearRetryMessage), (500, Retry), (2000, ClearRetryMessage),
          (500, Retry), (2000, ClearRetryMessage)]"
  by code_simp

text \<open>
  Claim C7, amended: from a fresh press in a session with its recognition set up, with
  the button held and nothing happening between the errors but timers coming due whose
  \<open>start()\<close> succeeds, the third consecutive \<open>network\<close> error leaves the session holding,
  with \<open>retryCount = 3\<close>, the message \<open>retry 3/3\<close> and a retry start scheduled after 500 ms;
  the fourth puts it in the fatal error state (\<open>isHolding\<close> cleared, \<open>retryCount\<close> reset, the
  guidance message shown) and schedules nothing, so that no fourth retry is scheduled.
\<close>

theorem network_retries_bound:
  assumes "speechSupported s" and "recognition s"
    and "\<forall>ev\<in>set (q0 @ q1 @ q2 @ q3). \<exists>t. ev = Timeout t Started"
    and "s3 = run server s (Press Started # q0 @ OnError (utf16 ''network'') # q1
                              @ OnError (utf16 ''network'') # q2 @ [OnError (utf16 ''network'')])"
    and "s4 = run server s3 (q3 @ [OnError (utf16 ''network'')])"
  shows "isHolding s3 \<and> retryCount s3 = 3 \<and> error s3 = Some (retryMessage 3)
         \<and> timers s3 = timers (run server s (Press Started # q0 @ OnError (utf16 ''network'') # q1
                                               @ OnError (utf16 ''network'') # q2))
                        @ [(500, Retry), (2000, ClearRetryMessage)]
         \<and> \<not> isHolding s4 \<and> retryCount s4 = 0 \<and> error s4 = Some guidance
         \<and> timers s4 = timers (run server s3 q3)"
proof -
  have q: "\<forall>ev\<in>set q0. \<exists>t. ev = Timeout t Started" "\<forall>ev\<in>set q1. \<exists>t. ev = Timeout t Started"
    "\<forall>ev\<in>set q2. \<exists>t. ev = Timeout t Started" "\<forall>ev\<in>set q3. \<exists>t. ev = Timeout t Started"
    using assms(3) by auto
  define a0 where "a0 = run server (startListening Started s) q0"
  define a1 where "a1 = run server (onerror (utf16 ''network'') a0) q1"
  define a2 where "a2 = run server (onerror (utf16 ''network'') a1) q2"
  have h0: "isHolding a0 \<and> retryCount a0 = 0"
    unfolding a0_def using run_timeouts [OF q(1)] startListening_Started [OF assms(1,2)] by simp
  then have e1: "isHolding (onerror (utf16 ''network'') a0) \<and> retryCount (onerror (utf16 ''network'') a0) = 1"
    using onerror_network_retry [of a0] by (simp add: maxRetries_def)
  then have h1: "isHolding a1 \<and> retryCount a1 = 1"
    unfolding a1_def using run_timeouts [OF q(2)] by simp
  then have e2: "isHolding (onerror (utf16 ''network'') a1) \<and> retryCount (onerror (utf16 ''network'') a1) = 2"
    using onerror_network_retry [of a1] by (simp add: maxRetries_def)
  then have h2: "isHolding a2 \<and> retryCount a2 = 2"
    unfolding a2_def using run_timeouts [OF q(3)] by simp
  have before: "run server s (Press Started # q0 @ OnError (utf16 ''network'') # q1
                                @ OnError (utf16 ''network'') # q2) = a2"
    by (simp add: a0_def a1_def a2_def run_Cons run_append)
  have s3: "s3 = onerror (utf16 ''network'') a2"
    unfolding assms(4)
    by (simp add: a0_def a1_def a2_def run_Cons run_append run_Nil)
  have r3: "isHolding s3 \<and> retryCount s3 = 3 \<and> error s3 = Some (retryMessage 3)
            \<and> timers s3 = timers a2 @ [(500, Retry), (2000, ClearRetryMessage)]"
    unfolding s3 using onerror_network_retry [of a2] h2 by (simp add: maxRetries_def)
  define a3 where "a3 = run server s3 q3"
  have h3: "isHolding a3 \<and> retryCount a3 = 3"
    unfolding a3_def using run_timeouts [OF q(4)] r3 by simp
  have s4: "s4 = onerror (utf16 ''network'') a3"
    unfolding assms(5) by (simp add: a3_def run_Cons run_append run_Nil)
  have r4: "\<not> isHolding s4 \<and> retryCount s4 = 0 \<and> error s4 = Some guidance
            \<and> timers s4 = timers a3"
    unfolding s4 using onerror_network_fatal [of a3] h3 by (simp add: maxRetries_def)
  show ?thesis using r3 r4 unfolding before a3_def by blast
qed


theorem network_retries_bound_witness:
  "\<not> isHolding
       (run (endpoint (rulebook (completes (utf16 ''Yes.''))))
          (run (endpoint (rulebook (completes (utf16 ''Yes.'')))) mounted
             (Press Started # [] @ OnError (utf16 ''network'') # [Timeout Retry Started]
                @ OnError (utf16 ''network'') # [Timeout Retry Started] @ [OnError (utf16 ''network'')]))
          ([Timeout Retry Started] @ [OnError (utf16 ''network'')]))
   \<and> error
       (run (endpoint (rulebook (completes (utf16 ''Yes.''))))
          (run (endpoint (rulebook (completes (utf16 ''Yes.'')))) mounted
             (Press Started # [] @ OnError (utf16 ''network'') # [Timeout Retry Started]
                @ OnError (utf16 ''network'') # [Timeout Retry Started] @ [OnError (utf16 ''network'')]))
          ([Timeout Retry Started] @ [OnError (utf16 ''network'')]))
     = Some guidance"
proof -
  have "speechSupported mounted" "recognition mounted"
    by (simp_all add: mounted_def)
  moreover have "\<forall>ev\<in>set ([] @ [Timeout Retry Started] @ [Timeout Retry Started]
                            @ [Timeout Retry Started]). \<exists>t. ev = Timeout t Started"
    by simp
  ultimately show ?thesis
    using network_retries_bound [where s = mounted and ?q0.0 = "[]"
        and ?q1.0 = "[Timeout Retry Started]" and ?q2.0 = "[Timeout Retry Started]"
        and ?q3.0 = "[Timeout Retry Started]"
        and server = "endpoint (rulebook (completes (utf16 ''Yes.'')))", OF _ _ _ refl refl]
    by blast
qed

section \<open>The voice session: restart on end\<close>

lemma restart_timeout_calls:
  "calls (timeout Restart r s) =
     (if (100, Restart) \<in> set (timers s) \<and> isHolding s \<and> recognition s
      then calls s @ [Start] else calls s)"
  by (simp add: timeout_def delay_def restart_callback_def Let_def)

lemma onend_fields:
  "isHolding (onend s) = isHolding s" "recognition (onend s) = recognition s"
  "calls (onend s) = calls s" "\<not> recognitionActive (onend s)"
  "timers (onend s) = (if isHolding s \<and> recognition s then timers s @ [(100, Restart)] else timers s)"
  by (simp_all add: onend_def Let_def)

text \<open>
  Claim C8: when the capability fires \<open>onend\<close> in a session whose recognition is set up
  and \<open>isHolding\<close> is still true, the session schedules a restart after a fixed 100 ms
  and calls nothing at once; when that timer comes due with \<open>isHolding\<close> still true,
  \<open>start()\<close> is called, without any press in between; when \<open>isHolding\<close> has become false
  by then (a release, for one), no start is requested.
\<close>

theorem onend_restarts_while_held:
  "(isHolding s \<and> recognition s \<longrightarrow>
      timers (step server s OnEnd) = timers s @ [(100, Restart)]
      \<and> calls (step server s OnEnd) = calls s
      \<and> calls (run server s [OnEnd, Timeout Restart r]) = calls s @ [Start])
   \<and> calls (run server s [OnEnd, Release, Timeout Restart r]) = calls s
   \<and> (\<not> isHolding s' \<longrightarrow> calls (step server s' (Timeout Restart r)) = calls s')
   \<and> ((100, Restart) \<in> set (timers s') \<and> isHolding s' \<and> recognition s' \<longrightarrow>
        calls (step server s' (Timeout Restart r)) = calls s' @ [Start])"
proof (intro conjI impI)
  assume h: "isHolding s \<and> recognition s"
  then show "timers (step server s OnEnd) = timers s @ [(100, Restart)]"
    and "calls (step server s OnEnd) = calls s"
    by (simp_all add: onend_fields)
  show "calls (run server s [OnEnd, Timeout Restart r]) = calls s @ [Start]"
    using h by (simp add: run_Cons run_Nil restart_timeout_calls onend_fields)
next
  show "calls (run server s [OnEnd, Release, Timeout Restart r]) = calls s"
    by (simp add: run_Cons run_Nil restart_timeout_calls stopListening_def Let_def onend_fields)
next
  assume "\<not> isHolding s'"
  then show "calls (step server s' (Timeout Restart r)) = calls s'"
    by (simp add: restart_timeout_calls)
next
  assume "(100, Restart) \<in> set (timers s') \<and> isHolding s' \<and> recognition s'"
  then show "calls (step server s' (Timeout Restart r)) = calls s' @ [Start]"
    by (simp add: restart_timeout_calls)
qed


theorem onend_restarts_while_held_witness:
  "isHolding (run (endpoint (rulebook (completes (utf16 ''The robber blocks a hex.'')))) mounted
                [Press Started, OnStart, OnResult (utf16 ''what is the robber'')])
   \<and> calls (run (endpoint (rulebook (completes (utf16 ''The robber blocks a hex.''))))
              (run (endpoint (rulebook (completes (utf16 ''The robber blocks a hex.'')))) mounted
                 [Press Started, OnStart, OnResult (utf16 ''what is the robber'')])
              [OnEnd, Timeout Restart Started])
       = [Start, Speak (utf16 ''The robber blocks a hex.''), Start]
   \<and> calls (step (endpoint (rulebook (completes (utf16 ''The robber blocks a hex.''))))
              (run (endpoint (rulebook (completes (utf16 ''The robber blocks a hex.'')))) mounted
                 [Press Started, OnStart, OnResult (utf16 ''what is the robber''), OnEnd, Release])
              (Timeout Restart Started))
       = [Start, Speak (utf16 ''The robber blocks a hex.'')]"
proof -
  let ?server = "endpoint (rulebook (completes (utf16 ''The robber blocks a hex.'')))"
  let ?s = "run ?server mounted [Press Started, OnStart, OnResult (utf16 ''what is the robber'')]"
  let ?released = "run ?server mounted
                     [Press Started, OnStart, OnResult (utf16 ''what is the robber''), OnEnd, Release]"
  have held: "isHolding ?s \<and> recognition ?s" by code_simp
  have c: "calls ?s = [Start, Speak (utf16 ''The robber blocks a hex.'')]" by code_simp
  have free: "\<not> isHolding ?released" by code_simp
  have c': "calls ?released = [Start, Speak (utf16 ''The robber blocks a hex.'')]" by code_simp
  from onend_restarts_while_held [of ?s ?server Started ?released] held
  have "calls (run ?server ?s [OnEnd, Timeout Restart Started]) = calls ?s @ [Start]"
    by blast
  moreover from onend_restarts_while_held [of ?s ?server Started ?released] free
  have "calls (step ?server ?released (Timeout Restart Started)) = calls ?released"
    by blast
  ultimately show ?thesis using held c c' by simp
qed

end
